theory Spec2Isabelle
  imports Complex_Main
begin

section \<open>Data model (src/types.ts)\<close>

text \<open>
  \<^verbatim>\<open>ChatMessage\<close> of src/types.ts: \<^verbatim>\<open>{role: 'user' | 'model', text, timestamp}\<close>.
  The timestamp is the integer \<^verbatim>\<open>Date.now()\<close> returns.
\<close>

datatype role = User | Model

record ChatMessage =
  msg_role :: role
  msg_text :: string
  msg_timestamp :: int

section \<open>Transcript assembly (CallInterface.tsx, updateTranscript)\<close>

text \<open>
  The updater that \<^verbatim>\<open>updateTranscript(role, text)\<close> hands to \<^verbatim>\<open>setTranscript\<close>,
  applied to the previous transcript. \<^verbatim>\<open>prev[prev.length - 1]\<close> is \<^verbatim>\<open>undefined\<close> on
  the empty array, which the test \<^verbatim>\<open>lastMsg && ...\<close> rejects; \<open>now\<close> is the value of
  \<^verbatim>\<open>Date.now()\<close> at the call.
\<close>

definition updateTranscript :: "role \<Rightarrow> string \<Rightarrow> int \<Rightarrow> ChatMessage list \<Rightarrow> ChatMessage list" where
  "updateTranscript r t now prev =
     (let lastMsg = (if prev = [] then None else Some (prev ! (length prev - 1))) in
      case lastMsg of
        None \<Rightarrow> prev @ [\<lparr>msg_role = r, msg_text = t, msg_timestamp = now\<rparr>]
      | Some m \<Rightarrow>
          if msg_role m = r
          then prev[length prev - 1 := m\<lparr>msg_text := msg_text m @ t\<rparr>]
          else prev @ [\<lparr>msg_role = r, msg_text = t, msg_timestamp = now\<rparr>])"

text \<open>
  A transcript delta as it reaches the updater: role, text and the clock reading of the
  call. React applies queued updaters in the order of the calls.
\<close>

type_synonym delta = "role \<times> string \<times> int"

fun assemble :: "ChatMessage list \<Rightarrow> delta list \<Rightarrow> ChatMessage list" where
  "assemble prev [] = prev"
| "assemble prev ((r, t, now) # ds) = assemble (updateTranscript r t now prev) ds"

section \<open>The voice call component (src/components/CallInterface.tsx)\<close>

subsection \<open>Objects the component holds\<close>

text \<open>
  The React state \<^verbatim>\<open>status\<close> has four values; the component has no state of its own for
  a finished call: \<^verbatim>\<open>handleHangup\<close> hands the transcript to the parent, which unmounts
  the component (src/App.tsx, \<^verbatim>\<open>handleEndCall\<close>).
\<close>

datatype call_status = Idle | Connecting | Connected | Error

text \<open>
  The output \<^verbatim>\<open>AudioContext\<close>: its clock \<^verbatim>\<open>currentTime\<close> (seconds) and its state. Times are
  JavaScript numbers; they are modelled as reals, so rounding of doubles is not part of the
  model. A closed context is never reachable through \<^verbatim>\<open>audioContextRef\<close>: \<^verbatim>\<open>cleanup\<close>
  clears the ref right after \<^verbatim>\<open>close()\<close>.
\<close>

datatype ctx_state = Suspended | Running

record audio_context =
  ctx_currentTime :: real
  ctx_state :: ctx_state

text \<open>A \<^verbatim>\<open>MediaStream\<close> is the list of its tracks; \<^verbatim>\<open>track.stop()\<close> ends a track.\<close>

datatype track_state = Live | Ended

type_synonym media_stream = "track_state list"

text \<open>
  The \<^verbatim>\<open>MediaStreamAudioSourceNode\<close> kept in \<^verbatim>\<open>inputSourceRef\<close> (the ref is not cleared
  by \<^verbatim>\<open>cleanup\<close>, so the node carries whether it is still connected), and the
  \<^verbatim>\<open>ScriptProcessorNode\<close> kept in \<^verbatim>\<open>processorRef\<close>. The processor's \<^verbatim>\<open>onaudioprocess\<close>
  handler is a closure: the \<^verbatim>\<open>isMuted\<close> it reads is the constant of the render in which
  the running \<^verbatim>\<open>startSession\<close> was created, not the current React state. The node
  carries that captured value.
\<close>

datatype source_node = MediaStreamSource (src_connected: bool)

datatype script_processor = ScriptProcessor (proc_isMuted: bool)

text \<open>
  \<^verbatim>\<open>createPCM16Blob\<close> (utils/audio, not among the sources) is kept abstract: the blob
  is identified by the samples it was made from. A live session is the list of the calls
  made on it; the component only ever calls \<^verbatim>\<open>sendRealtimeInput\<close>. The session also
  carries the \<^verbatim>\<open>isMuted\<close> binding its callbacks close over.
\<close>

datatype pcm_blob = PCM16Blob "real list"

datatype session_call = SendRealtimeInput pcm_blob | Close

record live_session =
  sess_isMuted :: bool
  sess_calls :: "session_call list"

text \<open>
  The fields of a \<^verbatim>\<open>LiveServerMessage\<close> the handler reads:
  \<^verbatim>\<open>serverContent.outputTranscription.text\<close>, \<^verbatim>\<open>serverContent.inputTranscription.text\<close>,
  \<^verbatim>\<open>serverContent.modelTurn.parts[0].inlineData.data\<close> and \<^verbatim>\<open>serverContent.interrupted\<close>;
  an absent field is \<open>None\<close>.
\<close>

record server_message =
  outputTranscription :: "string option"
  inputTranscription :: "string option"
  inlineData :: "string option"
  interrupted :: bool

datatype js_error = JsError (message: string)

text \<open>
  React state, refs, and what the component does to the outside world. Audio buffer
  sources are identified by the order in which they were started: source \<open>i\<close> is entry
  \<open>i\<close> of \<open>started\<close>, which records each \<^verbatim>\<open>source.start(when)\<close> with the buffer's
  duration. \<open>stopped\<close> records the \<^verbatim>\<open>source.stop()\<close> calls, \<open>connectCalls\<close> counts
  \<^verbatim>\<open>ai.live.connect\<close>, \<open>endCall\<close> is the argument of \<^verbatim>\<open>onEndCall\<close>, \<open>console\<close> the
  messages logged. \<open>pendingStart\<close> is \<open>Some m\<close> while a \<^verbatim>\<open>startSession\<close> is suspended at
  \<^verbatim>\<open>await getUserMedia\<close>, \<open>m\<close> being the \<^verbatim>\<open>isMuted\<close> of its closure.
  \<open>volumeLevel\<close> is a JavaScript number that can be NaN, which is \<open>None\<close>.
  \<open>orphanProcessors\<close> are the processors that a later \<^verbatim>\<open>setupAudioInput\<close> replaced in
  \<^verbatim>\<open>processorRef\<close>: nothing disconnects them, so their handlers keep running.
\<close>

record call_state =
  status :: call_status
  errorMsg :: string
  isMuted :: bool
  volumeLevel :: "real option"
  transcript :: "ChatMessage list"
  audioContextRef :: "audio_context option"
  inputSourceRef :: "source_node option"
  processorRef :: "script_processor option"
  streamRef :: "media_stream option"
  nextStartTimeRef :: real
  audioQueueRef :: "nat list"
  sessionPromiseRef :: "live_session option"
  mountedRef :: bool
  pendingStart :: "bool option"
  started :: "(real \<times> real) list"
  stopped :: "nat list"
  connectCalls :: nat
  endCall :: "ChatMessage list option"
  console :: "string list"
  orphanProcessors :: "script_processor list"

definition initial :: call_state where
  "initial =
     \<lparr>status = Idle, errorMsg = [], isMuted = False, volumeLevel = Some 0, transcript = [],
      audioContextRef = None, inputSourceRef = None, processorRef = None, streamRef = None,
      nextStartTimeRef = 0, audioQueueRef = [], sessionPromiseRef = None, mountedRef = True,
      pendingStart = None, started = [], stopped = [], connectCalls = 0, endCall = None,
      console = [], orphanProcessors = []\<rparr>"

text \<open>
  The arithmetic of JavaScript numbers as \<^verbatim>\<open>onaudioprocess\<close> uses it on the samples of a
  frame. Numbers are doubles: a sum, a product, a quotient and \<^verbatim>\<open>Math.sqrt\<close> give the
  double the engine computes, not the exact result, and the literal \<^verbatim>\<open>0.01\<close> is the double
  nearest to one hundredth. The operations and the value of the literal are parameters,
  so nothing is assumed about the rounding: what is proved for every \<open>number_ops\<close> holds
  for the engine's doubles. Comparison, \<^verbatim>\<open>Math.min\<close>, the literals 0, 1 and 5 and the
  length of a frame are exact. Samples lie between -1 and 1, so no operation overflows;
  NaN arises only as 0 / 0 on an empty frame and is handled there.
\<close>

record number_ops =
  num_add :: "real \<Rightarrow> real \<Rightarrow> real"
  num_mul :: "real \<Rightarrow> real \<Rightarrow> real"
  num_div :: "real \<Rightarrow> real \<Rightarrow> real"
  num_sqrt :: "real \<Rightarrow> real"
  num_0_01 :: real

text \<open>Arithmetic without rounding.\<close>

definition exactOps :: number_ops where
  "exactOps =
     \<lparr>num_add = (\<lambda>a b. a + b), num_mul = (\<lambda>a b. a * b), num_div = (\<lambda>a b. a / b),
      num_sqrt = sqrt, num_0_01 = 1 / 100\<rparr>"

text \<open>
  The arithmetic of doubles: every operation gives the exact result rounded to the nearest
  number with 53 significant bits, a tie going to the even one. \<open>pow2 e\<close> is two to the
  power \<open>e\<close>, and the unit in the last place of \<open>x\<close> is \<open>pow2\<close> of the exponent of \<open>x\<close>
  less 52. Underflow and overflow are left out: the squares, sums, quotients and roots
  that the handler forms from float32 samples between -1 and 1 are 0 or in the normal
  range.
\<close>

definition pow2 :: "int \<Rightarrow> real" where
  "pow2 e = (if 0 \<le> e then 2 ^ nat e else 1 / 2 ^ nat (- e))"

definition roundEven :: "real \<Rightarrow> int" where
  "roundEven q =
     (let f = \<lfloor>q\<rfloor>; r = q - of_int f in
      if r < 1 / 2 then f else if 1 / 2 < r then f + 1 else if even f then f else f + 1)"

definition toDouble :: "real \<Rightarrow> real" where
  "toDouble x =
     (if x = 0 then 0
      else let ulp = pow2 (\<lfloor>log 2 \<bar>x\<bar>\<rfloor> - 52) in of_int (roundEven (x / ulp)) * ulp)"

definition doubleOps :: number_ops where
  "doubleOps =
     \<lparr>num_add = (\<lambda>a b. toDouble (a + b)), num_mul = (\<lambda>a b. toDouble (a * b)),
      num_div = (\<lambda>a b. toDouble (a / b)), num_sqrt = (\<lambda>a. toDouble (sqrt a)),
      num_0_01 = toDouble (1 / 100)\<rparr>"

text \<open>
  What the environment decides: whether the constructors throw, whether
  \<^verbatim>\<open>ctx.resume()\<close> succeeds, what \<^verbatim>\<open>decodeAudioData(base64ToUint8Array(data), ctx)\<close>
  (utils/audio) gives for a payload (\<open>None\<close>: it throws; \<open>Some d\<close>: a buffer of duration
  \<open>d\<close>), the reading of \<^verbatim>\<open>Date.now()\<close>, and the arithmetic of numbers.
\<close>

record env =
  newGoogleGenAI :: "js_error + unit"
  newAudioContext :: "js_error + audio_context"
  resumeOk :: bool
  decodeAudioData :: "string \<Rightarrow> real option"
  dateNow :: int
  numbers :: number_ops

subsection \<open>Starting a session\<close>

text \<open>The \<^verbatim>\<open>catch\<close> block of \<^verbatim>\<open>startSession\<close>.\<close>

definition sessionFailed :: "js_error \<Rightarrow> call_state \<Rightarrow> call_state" where
  "sessionFailed err s =
     s\<lparr>console := console s @ [''Failed to start session''],
       status := Error,
       errorMsg := (if message err = [] then ''Kunne ikke starte sesjonen'' else message err)\<rparr>"

text \<open>
  \<^verbatim>\<open>startSession\<close> up to \<^verbatim>\<open>await getUserMedia\<close>. The \<^verbatim>\<open>status\<close> and \<^verbatim>\<open>isMuted\<close> it
  reads are those of its closure.
\<close>

definition startSession :: "env \<Rightarrow> call_status \<Rightarrow> bool \<Rightarrow> call_state \<Rightarrow> call_state" where
  "startSession env closure_status closure_isMuted s =
     (if closure_status = Connecting \<or> closure_status = Connected then s
      else
        let s1 = s\<lparr>status := Connecting, errorMsg := []\<rparr> in
        case newGoogleGenAI env of
          Inl e \<Rightarrow> sessionFailed e s1
        | Inr _ \<Rightarrow>
            (case newAudioContext env of
               Inl e \<Rightarrow> sessionFailed e s1
             | Inr c \<Rightarrow> s1\<lparr>audioContextRef := Some c, pendingStart := Some closure_isMuted\<rparr>))"

text \<open>
  The rest of \<^verbatim>\<open>startSession\<close>, run when \<^verbatim>\<open>getUserMedia\<close> settles: the stream is stored
  and \<^verbatim>\<open>ai.live.connect(config)\<close> is called (its promise is stored, not awaited), or the
  rejection reaches the \<^verbatim>\<open>catch\<close> block. Neither looks at \<^verbatim>\<open>mountedRef\<close>.
\<close>

definition getUserMediaResolved :: "media_stream \<Rightarrow> call_state \<Rightarrow> call_state" where
  "getUserMediaResolved stream s =
     (case pendingStart s of
        None \<Rightarrow> s
      | Some m \<Rightarrow>
          s\<lparr>pendingStart := None,
            streamRef := Some stream,
            sessionPromiseRef := Some \<lparr>sess_isMuted = m, sess_calls = []\<rparr>,
            connectCalls := connectCalls s + 1\<rparr>)"

definition getUserMediaRejected :: "js_error \<Rightarrow> call_state \<Rightarrow> call_state" where
  "getUserMediaRejected err s =
     (case pendingStart s of
        None \<Rightarrow> s
      | Some m \<Rightarrow> sessionFailed err (s\<lparr>pendingStart := None\<rparr>))"

subsection \<open>Microphone input\<close>

text \<open>
  \<^verbatim>\<open>setupAudioInput\<close> creates a source and a processor, connects them and stores them in
  the refs. A processor that the ref held before is overwritten, not disconnected: it
  stays in the audio graph with its handler.
\<close>

definition setupAudioInput :: "bool \<Rightarrow> call_state \<Rightarrow> call_state" where
  "setupAudioInput closure_isMuted s =
     (if audioContextRef s = None then s
      else s\<lparr>inputSourceRef := Some (MediaStreamSource True),
             processorRef := Some (ScriptProcessor closure_isMuted),
             orphanProcessors :=
               (case processorRef s of
                  None \<Rightarrow> orphanProcessors s
                | Some old \<Rightarrow> orphanProcessors s @ [old])\<rparr>)"

text \<open>
  The loudness of a frame as \<^verbatim>\<open>onaudioprocess\<close> computes it: the loop starts from 0 and
  adds the square of each sample in turn, then \<^verbatim>\<open>Math.sqrt(sum / inputData.length)\<close>.
  Frames have 4096 samples (\<^verbatim>\<open>createScriptProcessor(4096, 1, 1)\<close>).
\<close>

definition sumSquares :: "number_ops \<Rightarrow> real list \<Rightarrow> real" where
  "sumSquares ops inputData =
     foldl (\<lambda>sum x. num_add ops sum (num_mul ops x x)) 0 inputData"

definition rms :: "number_ops \<Rightarrow> real list \<Rightarrow> real" where
  "rms ops inputData =
     num_sqrt ops (num_div ops (sumSquares ops inputData) (real (length inputData)))"

text \<open>
  The handler of one captured frame. On an empty frame the quotient is 0 / 0, which is
  NaN: \<^verbatim>\<open>Math.min(1, NaN)\<close> is NaN and \<^verbatim>\<open>NaN > 0.01\<close> is false. The send sits in
  \<^verbatim>\<open>sessionPromiseRef.current.then\<close>; the promise is taken to be resolved, and the call is
  recorded whether or not it throws (a throw is only logged).
\<close>

definition onaudioprocess :: "env \<Rightarrow> script_processor \<Rightarrow> real list \<Rightarrow> call_state \<Rightarrow> call_state" where
  "onaudioprocess env p inputData s =
     (if proc_isMuted p then s
      else if inputData = [] then s\<lparr>volumeLevel := None\<rparr>
      else
        let r = rms (numbers env) inputData;
            s1 = s\<lparr>volumeLevel := Some (min 1 (num_mul (numbers env) r 5))\<rparr>
        in
        if r > num_0_01 (numbers env) then
          (case sessionPromiseRef s1 of
             None \<Rightarrow> s1
           | Some sess \<Rightarrow>
               s1\<lparr>sessionPromiseRef :=
                    Some (sess\<lparr>sess_calls :=
                      sess_calls sess @ [SendRealtimeInput (PCM16Blob inputData)]\<rparr>)\<rparr>)
        else s1)"

subsection \<open>Session callbacks\<close>

definition onopen :: "call_state \<Rightarrow> call_state" where
  "onopen s =
     (case sessionPromiseRef s of
        None \<Rightarrow> s
      | Some sess \<Rightarrow>
          let s1 = s\<lparr>console := console s @ [''Session opened'']\<rparr> in
          if mountedRef s1
          then setupAudioInput (sess_isMuted sess) (s1\<lparr>status := Connected\<rparr>)
          else s1)"

text \<open>
  The audio part of \<^verbatim>\<open>onmessage\<close>, for a non-empty payload: resume a suspended context,
  move the cursor up to the clock, decode, start the source at the cursor, advance the
  cursor by the buffer's duration and add the source to the queue. The handler is taken
  to run to its end before the next event.
\<close>

definition handleAudio :: "env \<Rightarrow> string \<Rightarrow> call_state \<Rightarrow> call_state" where
  "handleAudio env base64Audio s =
     (case audioContextRef s of
        None \<Rightarrow> s
      | Some ctx \<Rightarrow>
          let s1 =
                (if ctx_state ctx = Suspended
                 then (if resumeOk env
                       then s\<lparr>audioContextRef := Some (ctx\<lparr>ctx_state := Running\<rparr>)\<rparr>
                       else s\<lparr>console := console s @ [''resume failed'']\<rparr>)
                 else s);
              s2 = s1\<lparr>nextStartTimeRef := max (nextStartTimeRef s1) (ctx_currentTime ctx)\<rparr>
          in
          (case decodeAudioData env base64Audio of
             None \<Rightarrow> s2\<lparr>console := console s2 @ [''Error decoding audio'']\<rparr>
           | Some duration \<Rightarrow>
               s2\<lparr>started := started s2 @ [(nextStartTimeRef s2, duration)],
                  nextStartTimeRef := nextStartTimeRef s2 + duration,
                  audioQueueRef := audioQueueRef s2 @ [length (started s2)]\<rparr>))"

definition handleInterruption :: "call_state \<Rightarrow> call_state" where
  "handleInterruption s =
     (let s1 = s\<lparr>console := console s @ [''Interrupted!''],
                 stopped := stopped s @ audioQueueRef s,
                 audioQueueRef := []\<rparr>
      in case audioContextRef s1 of
           None \<Rightarrow> s1
         | Some ctx \<Rightarrow> s1\<lparr>nextStartTimeRef := ctx_currentTime ctx\<rparr>)"

definition handleTranscription :: "role \<Rightarrow> string option \<Rightarrow> int \<Rightarrow> call_state \<Rightarrow> call_state" where
  "handleTranscription r field now s =
     (case field of
        None \<Rightarrow> s
      | Some t \<Rightarrow>
          if t = [] then s
          else s\<lparr>transcript := updateTranscript r t now (transcript s)\<rparr>)"

definition onmessage :: "env \<Rightarrow> server_message \<Rightarrow> call_state \<Rightarrow> call_state" where
  "onmessage env m s =
     (if \<not> mountedRef s then s
      else
        let s1 = handleTranscription Model (outputTranscription m) (dateNow env) s;
            s2 = handleTranscription User (inputTranscription m) (dateNow env) s1;
            s3 = (case inlineData m of
                    None \<Rightarrow> s2
                  | Some base64Audio \<Rightarrow>
                      if base64Audio = [] then s2 else handleAudio env base64Audio s2)
        in if interrupted m then handleInterruption s3 else s3)"

definition onclose :: "call_state \<Rightarrow> call_state" where
  "onclose s = s\<lparr>console := console s @ [''Session closed'']\<rparr>"

text \<open>
  The message \<^verbatim>\<open>onerror\<close> stores; its one non-ASCII letter is written by its code point.
\<close>

definition lostContact :: string where
  "lostContact =
     ''Mistet kontakten med serveren. Sjekk internett eller pr'' @ [CHR 0xF8] @ ''v igjen.''"

definition onerror :: "call_state \<Rightarrow> call_state" where
  "onerror s =
     (let s1 = s\<lparr>console := console s @ [''Session error'']\<rparr> in
      if mountedRef s1 then s1\<lparr>status := Error, errorMsg := lostContact\<rparr> else s1)"

text \<open>\<^verbatim>\<open>source.onended\<close>: the source leaves the queue.\<close>

definition onended :: "nat \<Rightarrow> call_state \<Rightarrow> call_state" where
  "onended source s = s\<lparr>audioQueueRef := removeAll source (audioQueueRef s)\<rparr>"

subsection \<open>Release, mute, hangup\<close>

definition cleanup :: "call_state \<Rightarrow> call_state" where
  "cleanup s =
     (let s1 = (case streamRef s of
                  None \<Rightarrow> s
                | Some stream \<Rightarrow> s\<lparr>streamRef := Some (map (\<lambda>track. Ended) stream)\<rparr>);
          s2 = (case processorRef s1 of
                  None \<Rightarrow> s1
                | Some p \<Rightarrow> s1\<lparr>processorRef := None\<rparr>);
          s3 = (case inputSourceRef s2 of
                  None \<Rightarrow> s2
                | Some n \<Rightarrow> s2\<lparr>inputSourceRef := Some (MediaStreamSource False)\<rparr>)
      in case audioContextRef s3 of
           None \<Rightarrow> s3
         | Some ctx \<Rightarrow> s3\<lparr>audioContextRef := None\<rparr>)"

definition toggleMute :: "call_state \<Rightarrow> call_state" where
  "toggleMute s = s\<lparr>isMuted := \<not> isMuted s\<rparr>"

definition handleHangup :: "call_state \<Rightarrow> call_state" where
  "handleHangup s = (cleanup s)\<lparr>endCall := Some (transcript s)\<rparr>"

text \<open>The effect's cleanup function, run by React when the component unmounts.\<close>

definition unmount :: "call_state \<Rightarrow> call_state" where
  "unmount s = cleanup (s\<lparr>mountedRef := False\<rparr>)"

subsection \<open>What is rendered, and events\<close>

text \<open>
  The three screens of the component and the buttons each one offers: the error screen
  shows \<^verbatim>\<open>errorMsg\<close> with the retry and the back button, the ringing screen the start
  button while idle, the active screen mute and hangup.
\<close>

datatype view = ErrorScreen string | RingingScreen bool | ActiveScreen bool

datatype control = StartButton | RetryButton | CancelButton | MuteButton | HangupButton

definition render :: "call_state \<Rightarrow> view" where
  "render s =
     (if status s = Error then ErrorScreen (errorMsg s)
      else if status s = Idle \<or> status s = Connecting then RingingScreen (status s = Idle)
      else ActiveScreen (isMuted s))"

fun buttons :: "view \<Rightarrow> control list" where
  "buttons (ErrorScreen msg) = [RetryButton, CancelButton]"
| "buttons (RingingScreen idle) = (if idle then [StartButton] else [])"
| "buttons (ActiveScreen muted) = [MuteButton, HangupButton]"

text \<open>
  Clicks run the handlers of the last render, so their closures hold the current state.
  The retry button calls \<^verbatim>\<open>setStatus('idle')\<close> and then \<^verbatim>\<open>startSession()\<close>, whose closure still
  has the status of the error screen. The parent unmounts the component both on
  \<^verbatim>\<open>onCancel\<close> and on \<^verbatim>\<open>onEndCall\<close> (src/App.tsx); it also unmounts it when the user
  switches to chat mode, which is the event \<open>Unmount\<close>. \<open>AudioProcess\<close> is a frame
  delivered to the processor in \<^verbatim>\<open>processorRef\<close>, \<open>OrphanProcess k\<close> a frame delivered to
  the \<open>k\<close>-th processor that was replaced there without being disconnected; both run
  the same handler, each with the \<^verbatim>\<open>isMuted\<close> of its own closure, and both send to the
  session that \<^verbatim>\<open>sessionPromiseRef\<close> holds at that moment.
\<close>

fun click :: "env \<Rightarrow> control \<Rightarrow> call_state \<Rightarrow> call_state" where
  "click env StartButton s = startSession env (status s) (isMuted s) s"
| "click env RetryButton s = startSession env (status s) (isMuted s) (s\<lparr>status := Idle\<rparr>)"
| "click env CancelButton s = unmount s"
| "click env MuteButton s = toggleMute s"
| "click env HangupButton s = unmount (handleHangup s)"

definition setCurrentTime :: "real \<Rightarrow> call_state \<Rightarrow> call_state" where
  "setCurrentTime t s =
     s\<lparr>audioContextRef := map_option (\<lambda>ctx. ctx\<lparr>ctx_currentTime := t\<rparr>) (audioContextRef s)\<rparr>"

datatype event =
    Click control
  | GetUserMediaResolved media_stream
  | GetUserMediaRejected js_error
  | OnOpen
  | OnMessage server_message
  | OnClose
  | OnError
  | AudioProcess "real list"
  | SourceEnded nat
  | ClockReads real
  | Unmount
  | OrphanProcess nat "real list"

fun step :: "env \<Rightarrow> event \<Rightarrow> call_state \<Rightarrow> call_state" where
  "step env (Click c) s =
     (if mountedRef s \<and> c \<in> set (buttons (render s)) then click env c s else s)"
| "step env (GetUserMediaResolved stream) s = getUserMediaResolved stream s"
| "step env (GetUserMediaRejected err) s = getUserMediaRejected err s"
| "step env OnOpen s = onopen s"
| "step env (OnMessage m) s = onmessage env m s"
| "step env OnClose s = onclose s"
| "step env OnError s = onerror s"
| "step env (AudioProcess inputData) s =
     (case processorRef s of None \<Rightarrow> s | Some p \<Rightarrow> onaudioprocess env p inputData s)"
| "step env (SourceEnded source) s = onended source s"
| "step env (ClockReads t) s = setCurrentTime t s"
| "step env Unmount s = unmount s"
| "step env (OrphanProcess k inputData) s =
     (if k < length (orphanProcessors s)
      then onaudioprocess env (orphanProcessors s ! k) inputData s
      else s)"

fun run :: "env \<Rightarrow> event list \<Rightarrow> call_state \<Rightarrow> call_state" where
  "run env [] s = s"
| "run env (e # es) s = run env es (step env e s)"

subsection \<open>Properties of states, and sample runs\<close>

text \<open>
  Every resource \<^verbatim>\<open>cleanup\<close> handles is released: the tracks of the stored stream have
  ended, no processor is referenced, the input source is disconnected, no audio context
  is referenced.
\<close>

definition released :: "call_state \<Rightarrow> bool" where
  "released s \<longleftrightarrow>
     (case streamRef s of None \<Rightarrow> True | Some stream \<Rightarrow> list_all (\<lambda>track. track = Ended) stream)
     \<and> processorRef s = None
     \<and> (case inputSourceRef s of None \<Rightarrow> True | Some n \<Rightarrow> \<not> src_connected n)
     \<and> audioContextRef s = None"

text \<open>The session, if one was opened, has been closed by the component.\<close>

definition transportClosed :: "call_state \<Rightarrow> bool" where
  "transportClosed s \<longleftrightarrow>
     (case sessionPromiseRef s of None \<Rightarrow> True | Some sess \<Rightarrow> Close \<in> set (sess_calls sess))"

text \<open>The blobs sent to the session so far.\<close>

fun sentBlobs :: "session_call list \<Rightarrow> pcm_blob list" where
  "sentBlobs [] = []"
| "sentBlobs (SendRealtimeInput b # cs) = b # sentBlobs cs"
| "sentBlobs (Close # cs) = sentBlobs cs"

definition sent :: "call_state \<Rightarrow> pcm_blob list" where
  "sent s = (case sessionPromiseRef s of None \<Rightarrow> [] | Some sess \<Rightarrow> sentBlobs (sess_calls sess))"

text \<open>The two clicks that call \<^verbatim>\<open>startSession\<close>.\<close>

fun userStart :: "event \<Rightarrow> bool" where
  "userStart (Click StartButton) = True"
| "userStart (Click RetryButton) = True"
| "userStart e = False"

text \<open>
  An environment in which no constructor fails, a payload decodes to a buffer of a
  quarter of a second per character, except one payload that does not decode, and
  numbers are doubles; and the
  component after a start, a granted microphone with one track and the session's
  \<^verbatim>\<open>onopen\<close>; then with one audio chunk queued.
\<close>

definition env0 :: env where
  "env0 =
     \<lparr>newGoogleGenAI = Inr (),
      newAudioContext = Inr \<lparr>ctx_currentTime = 0, ctx_state = Running\<rparr>,
      resumeOk = True,
      decodeAudioData =
        (\<lambda>payload. if payload = ''!!!!'' then None else Some (real (length payload) / 4)),
      dateNow = 0,
      numbers = doubleOps\<rparr>"

definition audioChunk :: "string \<Rightarrow> server_message" where
  "audioChunk payload =
     \<lparr>outputTranscription = None, inputTranscription = None,
      inlineData = Some payload, interrupted = False\<rparr>"

definition interruption :: server_message where
  "interruption =
     \<lparr>outputTranscription = None, inputTranscription = None,
      inlineData = None, interrupted = True\<rparr>"

text \<open>
  A frame of float32 samples at the edge of the gate: computed in doubles its RMS is
  exactly the double 0.01, while the exact mean of its squares is above one
  ten-thousandth.
\<close>

definition edgeFrame :: "real list" where
  "edgeFrame = [10737417 / 536870912, 5284157 / 549755813888, 15385185 / 9007199254740992, 0]"

definition connected0 :: call_state where
  "connected0 = run env0 [Click StartButton, GetUserMediaResolved [Live], OnOpen] initial"

definition playing0 :: call_state where
  "playing0 = step env0 (OnMessage (audioChunk ''AAAA'')) connected0"

subsection \<open>Delivery of audio chunks\<close>

text \<open>
  Server messages as they arrive, each with the reading of the output clock at its
  arrival.
\<close>

fun arrivals :: "(real \<times> server_message) list \<Rightarrow> event list" where
  "arrivals [] = []"
| "arrivals ((t, m) # tms) = ClockReads t # OnMessage m # arrivals tms"

text \<open>
  A message that carries a decodable audio chunk and no interruption, and the duration of
  the buffer decoded from a message's chunk. An \<^verbatim>\<open>AudioBuffer\<close> has a non-negative
  duration.
\<close>

definition goodChunk :: "env \<Rightarrow> server_message \<Rightarrow> bool" where
  "goodChunk env m \<longleftrightarrow>
     \<not> interrupted m
     \<and> (case inlineData m of
          None \<Rightarrow> False
        | Some payload \<Rightarrow>
            payload \<noteq> []
            \<and> (case decodeAudioData env payload of None \<Rightarrow> False | Some d \<Rightarrow> 0 \<le> d))"

definition chunkDuration :: "env \<Rightarrow> server_message \<Rightarrow> real" where
  "chunkDuration env m =
     (case inlineData m of
        None \<Rightarrow> 0
      | Some payload \<Rightarrow> (case decodeAudioData env payload of None \<Rightarrow> 0 | Some d \<Rightarrow> d))"

text \<open>
  The schedule in the words of the specification, for buffers given by the clock reading
  at arrival and the duration: the start time is the maximum of the cursor and the clock,
  and the cursor moves to the start time plus the duration.
\<close>

fun schedule :: "real \<Rightarrow> (real \<times> real) list \<Rightarrow> (real \<times> real) list" where
  "schedule cursor [] = []"
| "schedule cursor ((clock, d) # bs) =
     (max cursor clock, d) # schedule (max cursor clock + d) bs"

section \<open>Product extraction (src/services/gemini.ts)\<close>

text \<open>\<^verbatim>\<open>ProductContext\<close> of src/types.ts.\<close>

record ProductContext =
  url :: string
  companyName :: string
  description :: string
  sellingPoints :: "string list"

text \<open>
  What the service's environment decides: whether \<^verbatim>\<open>new GoogleGenAI(...)\<close> throws, what
  \<^verbatim>\<open>ai.models.generateContent\<close> does for the prompt built from the URL and the manual
  text (it throws, or it returns a response whose \<^verbatim>\<open>text\<close> is undefined or a string), and
  what \<^verbatim>\<open>JSON.parse\<close> makes of a text (the cast to \<^verbatim>\<open>ProductContext\<close> is unchecked).
\<close>

record service_env =
  svc_newGoogleGenAI :: "js_error + unit"
  svc_generateContent :: "string \<Rightarrow> string \<Rightarrow> js_error + string option"
  svc_jsonParse :: "string \<Rightarrow> js_error + ProductContext"

definition getClient :: "service_env \<Rightarrow> js_error + unit" where
  "getClient env = svc_newGoogleGenAI env"

text \<open>The object the \<^verbatim>\<open>catch\<close> block returns.\<close>

definition fallbackProduct :: "string \<Rightarrow> ProductContext" where
  "fallbackProduct theUrl =
     \<lparr>url = theUrl,
      companyName = ''Ukjent Bedrift'',
      description = ''Kunne ikke hente info automatisk. Bruker standard oppsett.'',
      sellingPoints = [''Kvalitet'', ''Service'', ''Innovasjon'']\<rparr>"

text \<open>
  \<^verbatim>\<open>extractProductInfo\<close>: \<open>Inl\<close> is a rejected promise. The client is obtained before the
  \<^verbatim>\<open>try\<close> block; the request, the test of \<^verbatim>\<open>response.text\<close> (undefined and the empty
  string are falsy), the \<^verbatim>\<open>throw\<close> and \<^verbatim>\<open>JSON.parse\<close> are inside it.
\<close>

definition extractProductInfo :: "service_env \<Rightarrow> string \<Rightarrow> string \<Rightarrow> js_error + ProductContext" where
  "extractProductInfo env theUrl manualText =
     (case getClient env of
        Inl e \<Rightarrow> Inl e
      | Inr ai \<Rightarrow>
          (let attempt =
                 (case svc_generateContent env theUrl manualText of
                    Inl e \<Rightarrow> Inl e
                  | Inr text \<Rightarrow>
                      (case text of
                         None \<Rightarrow> Inl (JsError ''No response from AI'')
                       | Some t \<Rightarrow>
                           if t = [] then Inl (JsError ''No response from AI'')
                           else svc_jsonParse env t))
           in case attempt of
                Inr product \<Rightarrow> Inr product
              | Inl error \<Rightarrow> Inr (fallbackProduct theUrl)))"

text \<open>
  Sample environments: the request throws; and the client cannot be constructed (the
  browser build of the library refuses a missing API key).
\<close>

definition requestFails :: service_env where
  "requestFails =
     \<lparr>svc_newGoogleGenAI = Inr (),
      svc_generateContent = (\<lambda>theUrl manualText. Inl (JsError ''fetch failed'')),
      svc_jsonParse = (\<lambda>t. Inl (JsError ''Unexpected token''))\<rparr>"

definition clientFails :: service_env where
  "clientFails =
     requestFails\<lparr>svc_newGoogleGenAI :=
       Inl (JsError ''An API Key must be set when running in a browser'')\<rparr>"

section \<open>Transcript assembly: proofs\<close>


lemma updateTranscript_same:
  assumes "prev \<noteq> []" and "msg_role (last prev) = r"
  shows "updateTranscript r t now prev
           = butlast prev @ [(last prev)\<lparr>msg_text := msg_text (last prev) @ t\<rparr>]"
proof -
  from assms(1) have split: "prev = butlast prev @ [last prev]" by simp
  have idx: "prev ! (length prev - 1) = last prev"
    using assms(1) by (simp add: last_conv_nth)
  have "prev[length prev - 1 := x] = butlast prev @ [x]" for x
  proof -
    have "(butlast prev @ [last prev])[length (butlast prev) := x] = butlast prev @ [x]"
      by (simp add: list_update_append)
    with split show ?thesis by (metis length_butlast)
  qed
  with assms idx show ?thesis by (simp add: updateTranscript_def)
qed

lemma updateTranscript_other:
  assumes "prev = [] \<or> msg_role (last prev) \<noteq> r"
  shows "updateTranscript r t now prev
           = prev @ [\<lparr>msg_role = r, msg_text = t, msg_timestamp = now\<rparr>]"
  using assms by (auto simp: updateTranscript_def last_conv_nth)

lemma assemble_append: "assemble prev (ds @ es) = assemble (assemble prev ds) es"
  by (induction ds arbitrary: prev) auto

lemma assemble_snoc:
  "assemble prev (ds @ [(r, t, now)]) = updateTranscript r t now (assemble prev ds)"
  by (simp add: assemble_append)

lemma assemble_nonempty: "ds \<noteq> [] \<Longrightarrow> assemble [] ds \<noteq> []"
proof (induction ds rule: rev_induct)
  case Nil
  then show ?case by simp
next
  case (snoc d ds)
  obtain r t now where d: "d = (r, t, now)" by (cases d) auto
  show ?case
  proof (cases "assemble [] ds = [] \<or> msg_role (last (assemble [] ds)) \<noteq> r")
    case True
    then show ?thesis by (simp add: d assemble_snoc updateTranscript_other)
  next
    case False
    then show ?thesis by (simp add: d assemble_snoc updateTranscript_same)
  qed
qed

lemma assemble_last_role:
  "ds \<noteq> [] \<Longrightarrow> msg_role (last (assemble [] ds)) = fst (last ds)"
proof (induction ds rule: rev_induct)
  case Nil
  then show ?case by simp
next
  case (snoc d ds)
  obtain r t now where d: "d = (r, t, now)" by (cases d) auto
  show ?case
  proof (cases "assemble [] ds = [] \<or> msg_role (last (assemble [] ds)) \<noteq> r")
    case True
    then show ?thesis by (simp add: d assemble_snoc updateTranscript_other)
  next
    case False
    then show ?thesis by (simp add: d assemble_snoc updateTranscript_same)
  qed
qed

lemma remdups_adj_snoc:
  assumes "xs \<noteq> []"
  shows "remdups_adj (xs @ [y]) = (if last xs = y then remdups_adj xs else remdups_adj xs @ [y])"
proof -
  obtain ys x where xs: "xs = ys @ [x]"
    using assms by (cases xs rule: rev_cases) auto
  have "remdups_adj (ys @ [x, y]) = remdups_adj (ys @ [x]) @ (if x = y then [] else [y])"
    by (rule remdups_adj_append_two)
  then show ?thesis by (simp add: xs)
qed

lemma assemble_roles: "map msg_role (assemble [] ds) = remdups_adj (map fst ds)"
proof (induction ds rule: rev_induct)
  case Nil
  then show ?case by simp
next
  case (snoc d ds)
  obtain r t now where d: "d = (r, t, now)" by (cases d) auto
  let ?A = "assemble [] ds"
  show ?case
  proof (cases "ds = []")
    case True
    then show ?thesis by (simp add: d updateTranscript_def)
  next
    case False
    then have ne: "?A \<noteq> []" and lr: "msg_role (last ?A) = fst (last ds)"
      by (simp_all add: assemble_nonempty assemble_last_role)
    from False have lm: "last (map fst ds) = fst (last ds)" by (simp add: last_map)
    show ?thesis
    proof (cases "fst (last ds) = r")
      case True
      have "map msg_role (updateTranscript r t now ?A) = map msg_role ?A"
      proof -
        have "map msg_role (butlast ?A @ [(last ?A)\<lparr>msg_text := msg_text (last ?A) @ t\<rparr>])
                = map msg_role (butlast ?A @ [last ?A])" by simp
        with ne lr True show ?thesis by (simp add: updateTranscript_same)
      qed
      moreover have "remdups_adj (map fst ds @ [r]) = remdups_adj (map fst ds)"
        using False True lm by (simp add: remdups_adj_snoc)
      ultimately show ?thesis using snoc by (simp add: d assemble_snoc)
    next
      case neq: False
      have "map msg_role (updateTranscript r t now ?A) = map msg_role ?A @ [r]"
        using lr neq by (simp add: updateTranscript_other)
      moreover have "remdups_adj (map fst ds @ [r]) = remdups_adj (map fst ds) @ [r]"
        using False neq lm by (simp add: remdups_adj_snoc)
      ultimately show ?thesis using snoc by (simp add: d assemble_snoc)
    qed
  qed
qed

lemma assemble_texts:
  "concat (map msg_text (assemble [] ds)) = concat (map (\<lambda>d. fst (snd d)) ds)"
proof (induction ds rule: rev_induct)
  case Nil
  then show ?case by simp
next
  case (snoc d ds)
  obtain r t now where d: "d = (r, t, now)" by (cases d) auto
  let ?A = "assemble [] ds"
  show ?case
  proof (cases "?A = [] \<or> msg_role (last ?A) \<noteq> r")
    case True
    then show ?thesis using snoc by (simp add: d assemble_snoc updateTranscript_other)
  next
    case False
    then have ne: "?A \<noteq> []" and lr: "msg_role (last ?A) = r" by auto
    have "concat (map msg_text ?A) = concat (map msg_text (butlast ?A)) @ msg_text (last ?A)"
    proof -
      have "concat (map msg_text (butlast ?A @ [last ?A]))
              = concat (map msg_text (butlast ?A)) @ msg_text (last ?A)" by simp
      with ne show ?thesis by simp
    qed
    then show ?thesis
      using snoc ne lr by (simp add: d assemble_snoc updateTranscript_same)
  qed
qed

text \<open>
  Claim C3. A delta whose role is that of the last message is appended to that message's
  text (the message keeps its timestamp); a delta of another role, or the first delta,
  starts a new message holding the delta and the current timestamp. Hence for any deltas
  the roles of the messages are the roles of the deltas with adjacent repetitions
  removed, no text is lost or reordered, and deltas with roles A, A, B, A give exactly
  three messages: the first two A-deltas joined, the B-delta, the third A-delta.
\<close>

theorem transcript_assembly:
  "updateTranscript r t now prev =
     (if prev \<noteq> [] \<and> msg_role (last prev) = r
      then butlast prev @ [(last prev)\<lparr>msg_text := msg_text (last prev) @ t\<rparr>]
      else prev @ [\<lparr>msg_role = r, msg_text = t, msg_timestamp = now\<rparr>])
   \<and> map msg_role (assemble [] ds) = remdups_adj (map fst ds)
   \<and> concat (map msg_text (assemble [] ds)) = concat (map (\<lambda>d. fst (snd d)) ds)
   \<and> (a \<noteq> b \<longrightarrow>
        assemble [] [(a, t1, n1), (a, t2, n2), (b, t3, n3), (a, t4, n4)]
          = [\<lparr>msg_role = a, msg_text = t1 @ t2, msg_timestamp = n1\<rparr>,
             \<lparr>msg_role = b, msg_text = t3, msg_timestamp = n3\<rparr>,
             \<lparr>msg_role = a, msg_text = t4, msg_timestamp = n4\<rparr>])"
proof (intro conjI impI)
  show "updateTranscript r t now prev =
     (if prev \<noteq> [] \<and> msg_role (last prev) = r
      then butlast prev @ [(last prev)\<lparr>msg_text := msg_text (last prev) @ t\<rparr>]
      else prev @ [\<lparr>msg_role = r, msg_text = t, msg_timestamp = now\<rparr>])"
  proof (cases "prev \<noteq> [] \<and> msg_role (last prev) = r")
    case True
    then show ?thesis by (simp add: updateTranscript_same)
  next
    case False
    then have other: "prev = [] \<or> msg_role (last prev) \<noteq> r" by auto
    show ?thesis
      by (subst if_not_P [OF False]) (rule updateTranscript_other [OF other])
  qed
next
  show "map msg_role (assemble [] ds) = remdups_adj (map fst ds)"
    by (rule assemble_roles)
next
  show "concat (map msg_text (assemble [] ds)) = concat (map (\<lambda>d. fst (snd d)) ds)"
    by (rule assemble_texts)
next
  assume "a \<noteq> b"
  then show "assemble [] [(a, t1, n1), (a, t2, n2), (b, t3, n3), (a, t4, n4)]
          = [\<lparr>msg_role = a, msg_text = t1 @ t2, msg_timestamp = n1\<rparr>,
             \<lparr>msg_role = b, msg_text = t3, msg_timestamp = n3\<rparr>,
             \<lparr>msg_role = a, msg_text = t4, msg_timestamp = n4\<rparr>]"
    by (simp add: updateTranscript_def)
qed

theorem transcript_assembly_witness:
  "Model \<noteq> User
   \<and> assemble [] [(Model, ''Hei'', 10), (Model, '' der'', 20), (User, ''stopp'', 30), (Model, ''ja'', 40)]
       = [\<lparr>msg_role = Model, msg_text = ''Hei der'', msg_timestamp = 10\<rparr>,
          \<lparr>msg_role = User, msg_text = ''stopp'', msg_timestamp = 30\<rparr>,
          \<lparr>msg_role = Model, msg_text = ''ja'', msg_timestamp = 40\<rparr>]"
  using transcript_assembly [of Model "''Hei''" 10 "[]" "[]" Model User "''Hei''" 10 "'' der''" 20 "''stopp''" 30 "''ja''" 40]
  by (simp add: updateTranscript_def)

section \<open>Sample runs and release: proofs\<close>

lemma connected0_eq:
  "connected0 =
     \<lparr>status = Connected, errorMsg = [], isMuted = False, volumeLevel = Some 0, transcript = [],
      audioContextRef = Some \<lparr>ctx_currentTime = 0, ctx_state = Running\<rparr>,
      inputSourceRef = Some (MediaStreamSource True),
      processorRef = Some (ScriptProcessor False), streamRef = Some [Live],
      nextStartTimeRef = 0, audioQueueRef = [],
      sessionPromiseRef = Some \<lparr>sess_isMuted = False, sess_calls = []\<rparr>, mountedRef = True,
      pendingStart = None, started = [], stopped = [], connectCalls = 1, endCall = None,
      console = [''Session opened''], orphanProcessors = []\<rparr>"
  by (simp add: connected0_def initial_def env0_def render_def startSession_def
      getUserMediaResolved_def onopen_def setupAudioInput_def)

lemma playing0_eq:
  "playing0 =
     \<lparr>status = Connected, errorMsg = [], isMuted = False, volumeLevel = Some 0, transcript = [],
      audioContextRef = Some \<lparr>ctx_currentTime = 0, ctx_state = Running\<rparr>,
      inputSourceRef = Some (MediaStreamSource True),
      processorRef = Some (ScriptProcessor False), streamRef = Some [Live],
      nextStartTimeRef = 1, audioQueueRef = [0],
      sessionPromiseRef = Some \<lparr>sess_isMuted = False, sess_calls = []\<rparr>, mountedRef = True,
      pendingStart = None, started = [(0, 1)], stopped = [], connectCalls = 1, endCall = None,
      console = [''Session opened''], orphanProcessors = []\<rparr>"
  by (simp add: playing0_def connected0_eq env0_def audioChunk_def onmessage_def
      handleTranscription_def handleAudio_def)

lemma cleanup_eq:
  "cleanup s =
     s\<lparr>streamRef := map_option (map (\<lambda>track. Ended)) (streamRef s),
       processorRef := None,
       inputSourceRef := map_option (\<lambda>n. MediaStreamSource False) (inputSourceRef s),
       audioContextRef := None\<rparr>"
  by (cases s) (auto simp: cleanup_def Let_def split: option.splits)

lemma released_cleanup: "released (cleanup s)"
  by (simp add: cleanup_eq released_def list_all_iff split: option.splits)

lemma cleanup_released: "released s \<Longrightarrow> cleanup s = s"
proof -
  assume r: "released s"
  have "map (\<lambda>track. Ended) st = st" if "list_all (\<lambda>track. track = Ended) st" for st :: media_stream
    using that by (induction st) auto
  moreover have "MediaStreamSource False = n" if "\<not> src_connected n" for n
    using that by (cases n) simp
  ultimately show ?thesis using r
    by (cases s) (auto simp: cleanup_eq released_def split: option.splits)
qed

text \<open>
  Claim C9. Releasing is idempotent: a second \<^verbatim>\<open>cleanup\<close> changes nothing, and on a
  state whose resources are already released \<^verbatim>\<open>cleanup\<close> is the identity. It is total
  and ends with everything released whatever subset of the four refs is set: the stored
  stream's tracks are stopped, the processor ref is cleared, the input source is
  disconnected, the audio context ref is cleared, and nothing else changes.
\<close>

theorem cleanup_idempotent:
  "cleanup (cleanup s) = cleanup s
   \<and> released (cleanup s)
   \<and> (released s \<longrightarrow> cleanup s = s)
   \<and> cleanup s =
       s\<lparr>streamRef := map_option (map (\<lambda>track. Ended)) (streamRef s),
         processorRef := None,
         inputSourceRef := map_option (\<lambda>n. MediaStreamSource False) (inputSourceRef s),
         audioContextRef := None\<rparr>"
  using cleanup_released [OF released_cleanup] released_cleanup cleanup_released cleanup_eq
  by blast

theorem cleanup_idempotent_witness:
  "released (cleanup connected0)
   \<and> cleanup (cleanup connected0) = cleanup connected0
   \<and> streamRef (cleanup connected0) = Some [Ended]
   \<and> released (cleanup initial)
   \<and> cleanup initial = initial"
proof -
  note full = cleanup_idempotent [of connected0]
  note none = cleanup_idempotent [of initial]
  have r0: "released initial" by (simp add: released_def initial_def)
  have 1: "released (cleanup connected0)" using full by blast
  have 2: "cleanup (cleanup connected0) = cleanup connected0" using full by blast
  have 3: "streamRef (cleanup connected0) = Some [Ended]"
    by (simp add: cleanup_eq connected0_eq)
  have 4: "released (cleanup initial)" using none by blast
  have 5: "cleanup initial = initial" using none r0 by blast
  from 1 2 3 4 5 show ?thesis by blast
qed

section \<open>Transport errors: proofs\<close>

lemma handleTranscription_frame:
  "pendingStart (handleTranscription r f now s) = pendingStart s"
  "connectCalls (handleTranscription r f now s) = connectCalls s"
  "mountedRef (handleTranscription r f now s) = mountedRef s"
  "audioContextRef (handleTranscription r f now s) = audioContextRef s"
  by (simp_all add: handleTranscription_def split: option.splits)

lemma handleAudio_frame:
  "pendingStart (handleAudio env b s) = pendingStart s"
  "connectCalls (handleAudio env b s) = connectCalls s"
  by (simp_all add: handleAudio_def Let_def split: option.splits)

lemma handleInterruption_frame:
  "pendingStart (handleInterruption s) = pendingStart s"
  "connectCalls (handleInterruption s) = connectCalls s"
  by (simp_all add: handleInterruption_def Let_def split: option.splits)

lemma onmessage_frame:
  "pendingStart (onmessage env m s) = pendingStart s"
  "connectCalls (onmessage env m s) = connectCalls s"
  by (simp_all add: onmessage_def Let_def handleTranscription_frame handleAudio_frame
      handleInterruption_frame split: option.splits)

lemma onaudioprocess_frame:
  "pendingStart (onaudioprocess env p f s) = pendingStart s"
  "connectCalls (onaudioprocess env p f s) = connectCalls s"
  by (simp_all add: onaudioprocess_def Let_def split: option.splits)

lemma onopen_frame:
  "pendingStart (onopen s) = pendingStart s"
  "connectCalls (onopen s) = connectCalls s"
  by (simp_all add: onopen_def setupAudioInput_def Let_def split: option.splits)

lemma step_no_connect:
  assumes "pendingStart s = None" and "\<not> userStart e"
  shows "pendingStart (step env e s) = None \<and> connectCalls (step env e s) = connectCalls s"
proof (cases e)
  case (Click c)
  with assms show ?thesis
    by (cases c) (simp_all add: unmount_def handleHangup_def cleanup_eq toggleMute_def)
next
  case (OnMessage m)
  with assms show ?thesis by (simp add: onmessage_frame)
next
  case (AudioProcess f)
  with assms show ?thesis by (simp add: onaudioprocess_frame split: option.splits)
next
  case (OrphanProcess k f)
  with assms show ?thesis by (simp add: onaudioprocess_frame)
next
  case OnOpen
  with assms show ?thesis by (simp add: onopen_frame)
qed (use assms in \<open>simp_all add: getUserMediaResolved_def getUserMediaRejected_def onclose_def
      onerror_def Let_def onended_def setCurrentTime_def unmount_def cleanup_eq\<close>)

lemma run_no_connect:
  "pendingStart s = None \<Longrightarrow> list_all (\<lambda>e. \<not> userStart e) es \<Longrightarrow>
     connectCalls (run env es s) = connectCalls s"
proof (induction es arbitrary: s)
  case Nil
  then show ?case by simp
next
  case (Cons e es)
  from Cons.prems have e: "\<not> userStart e" and es: "list_all (\<lambda>e. \<not> userStart e) es" by simp_all
  from step_no_connect [OF Cons.prems(1) e, of env]
  have p: "pendingStart (step env e s) = None" and c: "connectCalls (step env e s) = connectCalls s"
    by simp_all
  from Cons.IH [OF p es] c show ?case by simp
qed

lemma onerror_mounted:
  "mountedRef s \<Longrightarrow>
     onerror s = s\<lparr>console := console s @ [''Session error''], status := Error, errorMsg := lostContact\<rparr>"
  by (simp add: onerror_def Let_def)

text \<open>
  Claim C7, as the code has it. While the component is mounted, \<^verbatim>\<open>onerror\<close> sets the
  status to \<^verbatim>\<open>error\<close> and stores the message, the error screen shows that message
  with the retry and the back button, and nothing else changes: no resource is released
  on entering the error state (they are released when the component unmounts, as on the
  back button). No event other than a click on start or retry ever calls
  \<^verbatim>\<open>ai.live.connect\<close>; a click on retry followed by the microphone grant
  does, once.
\<close>

theorem transport_error_needs_user_retry:
  assumes "mountedRef s"
  shows "status (onerror s) = Error
   \<and> errorMsg (onerror s) = lostContact
   \<and> render (onerror s) = ErrorScreen lostContact
   \<and> buttons (render (onerror s)) = [RetryButton, CancelButton]
   \<and> (onerror s)\<lparr>status := status s, errorMsg := errorMsg s, console := console s\<rparr> = s
   \<and> released (step env (Click CancelButton) (onerror s))
   \<and> (pendingStart s = None \<and> list_all (\<lambda>e. \<not> userStart e) es
        \<longrightarrow> connectCalls (run env es (onerror s)) = connectCalls s)
   \<and> (newGoogleGenAI env = Inr () \<and> newAudioContext env = Inr c
        \<longrightarrow> connectCalls (run env [Click RetryButton, GetUserMediaResolved stream] (onerror s))
              = connectCalls s + 1)"
proof -
  note e = onerror_mounted [OF assms]
  have 1: "status (onerror s) = Error" "errorMsg (onerror s) = lostContact"
    by (simp_all add: e)
  then have 2: "render (onerror s) = ErrorScreen lostContact" by (simp add: render_def)
  then have 3: "buttons (render (onerror s)) = [RetryButton, CancelButton]" by simp
  have 4: "(onerror s)\<lparr>status := status s, errorMsg := errorMsg s, console := console s\<rparr> = s"
    by (simp add: e)
  have m: "mountedRef (onerror s)" using assms by (simp add: e)
  have 5: "released (step env (Click CancelButton) (onerror s))"
    using m 3 by (simp add: unmount_def released_cleanup)
  have 6: "connectCalls (run env es (onerror s)) = connectCalls s"
    if "pendingStart s = None" "list_all (\<lambda>e. \<not> userStart e) es"
  proof -
    have "pendingStart (onerror s) = None" using that(1) by (simp add: e)
    from run_no_connect [OF this that(2)] show ?thesis by (simp add: e)
  qed
  have 7: "connectCalls (run env [Click RetryButton, GetUserMediaResolved stream] (onerror s))
              = connectCalls s + 1"
    if "newGoogleGenAI env = Inr ()" "newAudioContext env = Inr c"
    using that m 3 1 by (simp add: startSession_def getUserMediaResolved_def e)
  from 1 2 3 4 5 6 7 show ?thesis by blast
qed

theorem transport_error_needs_user_retry_witness:
  "mountedRef connected0
   \<and> status (onerror connected0) = Error
   \<and> render (onerror connected0) = ErrorScreen lostContact
   \<and> pendingStart connected0 = None
   \<and> list_all (\<lambda>e. \<not> userStart e)
        [OnClose, OnOpen, AudioProcess [1/2], OnMessage (audioChunk ''AAAA''), OnError, ClockReads 3]
   \<and> connectCalls (run env0
        [OnClose, OnOpen, AudioProcess [1/2], OnMessage (audioChunk ''AAAA''), OnError, ClockReads 3]
        (onerror connected0)) = 1
   \<and> newGoogleGenAI env0 = Inr ()
   \<and> newAudioContext env0 = Inr \<lparr>ctx_currentTime = 0, ctx_state = Running\<rparr>
   \<and> connectCalls (run env0 [Click RetryButton, GetUserMediaResolved [Live]] (onerror connected0)) = 2"
proof -
  have m: "mountedRef connected0" by (simp add: connected0_eq)
  have p: "pendingStart connected0 = None" by (simp add: connected0_eq)
  have c: "connectCalls connected0 = 1" by (simp add: connected0_eq)
  have l: "list_all (\<lambda>e. \<not> userStart e)
        [OnClose, OnOpen, AudioProcess [1/2], OnMessage (audioChunk ''AAAA''), OnError, ClockReads 3]"
    by simp
  have g: "newGoogleGenAI env0 = Inr ()"
    "newAudioContext env0 = Inr \<lparr>ctx_currentTime = 0, ctx_state = Running\<rparr>"
    by (simp_all add: env0_def)
  note t = transport_error_needs_user_retry [OF m, of env0
      "[OnClose, OnOpen, AudioProcess [1/2], OnMessage (audioChunk ''AAAA''), OnError, ClockReads 3]"
      "\<lparr>ctx_currentTime = 0, ctx_state = Running\<rparr>" "[Live]"]
  from t have a: "status (onerror connected0) = Error"
    and r: "render (onerror connected0) = ErrorScreen lostContact" by blast+
  from t p l have "connectCalls (run env0
        [OnClose, OnOpen, AudioProcess [1/2], OnMessage (audioChunk ''AAAA''), OnError, ClockReads 3]
        (onerror connected0)) = connectCalls connected0" by blast
  with c have b: "connectCalls (run env0
        [OnClose, OnOpen, AudioProcess [1/2], OnMessage (audioChunk ''AAAA''), OnError, ClockReads 3]
        (onerror connected0)) = 1" by linarith
  from t g have "connectCalls (run env0 [Click RetryButton, GetUserMediaResolved [Live]]
        (onerror connected0)) = connectCalls connected0 + 1" by blast
  with c have d: "connectCalls (run env0 [Click RetryButton, GetUserMediaResolved [Live]]
        (onerror connected0)) = 2" by linarith
  from m a r p l b g d show ?thesis by blast
qed

text \<open>
  The claim as stated says that all resources are released in the error state. After a
  transport error in a connected call the microphone track is still live, the processor
  and the audio context are still referenced.
\<close>

theorem error_state_keeps_resources_counterexample:
  "status (step env0 OnError connected0) = Error
   \<and> \<not> released (step env0 OnError connected0)"
  by (simp add: connected0_eq onerror_def released_def)

section \<open>Hangup: proofs\<close>

lemma onopen_unmounted:
  "\<not> mountedRef s \<Longrightarrow> (onopen s)\<lparr>console := console s\<rparr> = s"
  by (simp add: onopen_def Let_def split: option.splits)

lemma onmessage_unmounted: "\<not> mountedRef s \<Longrightarrow> onmessage env m s = s"
  by (simp add: onmessage_def)

text \<open>
  Claim C5, as the code has it. In any state \<^verbatim>\<open>handleHangup\<close> hands the transcript to
  \<^verbatim>\<open>onEndCall\<close> and releases what \<^verbatim>\<open>cleanup\<close> handles: the microphone tracks are
  stopped, processor and input source disconnected, the audio context closed. The
  component's status stays as it was (there is no ended status), the session is not
  closed and the queue of playing sources is not cleared. Once the parent has unmounted
  the component, a later \<^verbatim>\<open>onopen\<close> only logs and a later message is ignored.
\<close>

theorem hangup_releases_local_resources:
  "endCall (handleHangup s) = Some (transcript s)
   \<and> released (handleHangup s)
   \<and> released (unmount (handleHangup s))
   \<and> \<not> mountedRef (unmount (handleHangup s))
   \<and> status (unmount (handleHangup s)) = status s
   \<and> sessionPromiseRef (unmount (handleHangup s)) = sessionPromiseRef s
   \<and> audioQueueRef (unmount (handleHangup s)) = audioQueueRef s
   \<and> (onopen (unmount (handleHangup s)))\<lparr>console := console s\<rparr> = unmount (handleHangup s)
   \<and> onmessage env m (unmount (handleHangup s)) = unmount (handleHangup s)"
proof -
  let ?u = "unmount (handleHangup s)"
  have 1: "endCall (handleHangup s) = Some (transcript s)"
    by (simp add: handleHangup_def)
  have 2: "released (handleHangup s)"
    using released_cleanup [of s] by (simp add: handleHangup_def released_def)
  have 3: "released ?u" by (simp add: unmount_def released_cleanup)
  have 4: "\<not> mountedRef ?u" by (simp add: unmount_def cleanup_eq)
  have 5: "status ?u = status s" "sessionPromiseRef ?u = sessionPromiseRef s"
    "audioQueueRef ?u = audioQueueRef s" "console ?u = console s"
    by (simp_all add: unmount_def handleHangup_def cleanup_eq)
  from onopen_unmounted [OF 4] 5(4)
  have 6: "(onopen ?u)\<lparr>console := console s\<rparr> = ?u" by simp
  from onmessage_unmounted [OF 4] have 7: "onmessage env m ?u = ?u" .
  from 1 2 3 4 5 6 7 show ?thesis by blast
qed

theorem hangup_releases_local_resources_witness:
  "step env0 (Click HangupButton) playing0 = unmount (handleHangup playing0)
   \<and> endCall (handleHangup playing0) = Some []
   \<and> released (step env0 (Click HangupButton) playing0)
   \<and> streamRef (step env0 (Click HangupButton) playing0) = Some [Ended]
   \<and> onmessage env0 (audioChunk ''AAAA'') (step env0 (Click HangupButton) playing0)
       = step env0 (Click HangupButton) playing0"
proof -
  note t = hangup_releases_local_resources [of playing0 env0 "audioChunk ''AAAA''"]
  have s: "step env0 (Click HangupButton) playing0 = unmount (handleHangup playing0)"
    by (simp add: playing0_eq render_def)
  have tr: "transcript playing0 = []" by (simp add: playing0_eq)
  have st: "streamRef (unmount (handleHangup playing0)) = Some [Ended]"
    by (simp add: unmount_def handleHangup_def cleanup_eq playing0_eq)
  from t tr have e: "endCall (handleHangup playing0) = Some []" by metis
  from t have r: "released (unmount (handleHangup playing0))"
    and o: "onmessage env0 (audioChunk ''AAAA'') (unmount (handleHangup playing0))
              = unmount (handleHangup playing0)" by blast+
  from s e r st o show ?thesis by metis
qed

text \<open>
  The claim as stated says that hangup closes the transport and clears the active buffer
  set. After hangup in a connected call with one source queued, no \<^verbatim>\<open>close\<close> was ever
  called on the session and the queue still holds the source.
\<close>

theorem hangup_leaves_transport_and_queue_counterexample:
  "\<not> transportClosed (step env0 (Click HangupButton) playing0)
   \<and> audioQueueRef (step env0 (Click HangupButton) playing0) \<noteq> []
   \<and> status (step env0 (Click HangupButton) playing0) = Connected"
  by (simp add: playing0_eq render_def unmount_def handleHangup_def cleanup_eq transportClosed_def)

text \<open>
  What the corrected claim leaves open: \<^verbatim>\<open>startSession\<close> does not look at
  \<^verbatim>\<open>mountedRef\<close> after \<^verbatim>\<open>await getUserMedia\<close>. When the component is unmounted while the
  microphone request is pending, the grant that arrives afterwards is still applied: the
  stream is stored with its track live and \<^verbatim>\<open>ai.live.connect\<close> is called.
\<close>

lemma late_microphone_grant_is_applied:
  "\<not> mountedRef (run env0 [Click StartButton, Unmount, GetUserMediaResolved [Live]] initial)
   \<and> streamRef (run env0 [Click StartButton, Unmount, GetUserMediaResolved [Live]] initial)
       = Some [Live]
   \<and> connectCalls (run env0 [Click StartButton, Unmount, GetUserMediaResolved [Live]] initial) = 1"
  by (simp add: initial_def env0_def render_def startSession_def unmount_def cleanup_eq
      getUserMediaResolved_def)

section \<open>Captured frames: proofs\<close>

lemma sqrt_boundary: "sqrt (1 / 10000) = 1 / 100"
  by (rule real_sqrt_unique) (simp_all add: power2_eq_square)

lemma sqrt_gate: "sqrt x > 1 / 100 \<longleftrightarrow> x > 1 / 10000"
proof -
  have "sqrt (1 / 10000) < sqrt x \<longleftrightarrow> 1 / 10000 < x" by (rule real_sqrt_less_iff)
  then show ?thesis unfolding sqrt_boundary .
qed

lemma sentBlobs_snoc: "sentBlobs (cs @ [SendRealtimeInput b]) = sentBlobs cs @ [b]"
  by (induction cs rule: sentBlobs.induct) auto

lemma sumSquares_snoc:
  "sumSquares ops (f @ [x]) = num_add ops (sumSquares ops f) (num_mul ops x x)"
  by (simp add: sumSquares_def)

lemma foldl_squares: "foldl (\<lambda>sum x. sum + x * x) a f = a + sum_list (map (\<lambda>x. x * x) f)"
  by (induction f arbitrary: a) (simp_all add: add.assoc)

lemma sumSquares_exact: "sumSquares exactOps f = sum_list (map (\<lambda>x. x\<^sup>2) f)"
proof -
  have "(\<lambda>x :: real. x\<^sup>2) = (\<lambda>x. x * x)" by (simp add: power2_eq_square)
  then show ?thesis by (simp add: sumSquares_def exactOps_def foldl_squares)
qed

lemma rms_exact: "rms exactOps f = sqrt (sum_list (map (\<lambda>x. x\<^sup>2) f) / real (length f))"
proof -
  have "rms exactOps f = sqrt (sumSquares exactOps f / real (length f))"
    by (simp add: rms_def exactOps_def)
  then show ?thesis by (simp only: sumSquares_exact)
qed

lemma threshold_exact: "num_0_01 exactOps = 1 / 100"
  by (simp add: exactOps_def)

lemma exact_gate:
  "rms exactOps f > num_0_01 exactOps
     \<longleftrightarrow> sum_list (map (\<lambda>x. x\<^sup>2) f) / real (length f) > 1 / 10000"
  by (simp only: rms_exact threshold_exact sqrt_gate)

lemma numbers_env0: "numbers env0 = doubleOps"
  by (simp add: env0_def)

lemma pow2_powr: "pow2 e = 2 powr of_int e"
proof (cases "0 \<le> e")
  case True
  then have "2 powr of_int e = (2 :: real) ^ nat e"
    by (metis of_int_of_nat_eq of_nat_nat powr_realpow zero_less_numeral of_int_of_nat_eq)
  with True show ?thesis by (simp add: pow2_def)
next
  case False
  then have "2 powr of_int e = 1 / (2 :: real) powr of_int (- e)"
    by (simp add: powr_minus_divide)
  also have "(2 :: real) powr of_int (- e) = 2 ^ nat (- e)"
    using False by (metis (no_types) less_eq_int_code(1) linorder_not_le neg_0_le_iff_le
        nle_le of_int_of_nat_eq of_nat_nat powr_realpow zero_less_numeral)
  finally show ?thesis using False by (simp add: pow2_def)
qed

lemma pow2_pos: "0 < pow2 e"
  by (simp add: pow2_powr)

lemma floor_log2:
  assumes "pow2 e \<le> y" and "y < pow2 (e + 1)"
  shows "\<lfloor>log 2 y\<rfloor> = e"
proof -
  have y: "0 < y" using assms(1) pow2_pos [of e] by linarith
  have "of_int e \<le> log 2 y"
    using assms(1) y by (simp add: pow2_powr le_log_iff)
  moreover have "log 2 y < of_int e + 1"
    using assms(2) y by (simp add: pow2_powr log_less_iff)
  ultimately show ?thesis by linarith
qed

lemma roundEven_near:
  assumes "\<bar>q - of_int k\<bar> < 1 / 2"
  shows "roundEven q = k"
proof (cases "of_int k \<le> q")
  case True
  with assms have "\<lfloor>q\<rfloor> = k" by linarith
  with assms True show ?thesis by (simp add: roundEven_def Let_def)
next
  case False
  with assms have f: "\<lfloor>q\<rfloor> = k - 1" by linarith
  have "1 / 2 < q - of_int (k - 1)" using assms False by simp
  with f show ?thesis by (simp add: roundEven_def Let_def)
qed

lemma toDouble_eqI:
  assumes "pow2 e \<le> \<bar>x\<bar>" and "\<bar>x\<bar> < pow2 (e + 1)"
    and "y = of_int k * pow2 (e - 52)"
    and "\<bar>x - y\<bar> < pow2 (e - 52) / 2"
  shows "toDouble x = y"
proof -
  let ?u = "pow2 (e - 52)"
  have u: "0 < ?u" by (rule pow2_pos)
  have x: "x \<noteq> 0" using assms(1) pow2_pos [of e] by auto
  have l: "\<lfloor>log 2 \<bar>x\<bar>\<rfloor> = e" using assms(1,2) by (rule floor_log2)
  have "\<bar>x / ?u - of_int k\<bar> = \<bar>x - y\<bar> / ?u"
    using u by (simp add: assms(3) field_simps abs_mult abs_divide flip: abs_mult)
  also have "\<dots> < 1 / 2" using assms(4) u by (simp add: field_simps)
  finally have "roundEven (x / ?u) = k" by (rule roundEven_near)
  with x l show ?thesis by (simp add: toDouble_def Let_def assms(3))
qed

lemma toDouble_sqrtI:
  assumes "pow2 e * pow2 e \<le> q" and "q < pow2 (e + 1) * pow2 (e + 1)"
    and "y = of_int k * pow2 (e - 52)"
    and "pow2 (e - 52) / 2 < y"
    and "(y - pow2 (e - 52) / 2) * (y - pow2 (e - 52) / 2) < q"
    and "q < (y + pow2 (e - 52) / 2) * (y + pow2 (e - 52) / 2)"
  shows "toDouble (sqrt q) = y"
proof (rule toDouble_eqI [where e = e and k = k])
  let ?h = "pow2 (e - 52) / 2"
  have q: "0 \<le> q" using assms(1) pow2_pos [of e] by (meson le_less_trans less_imp_le mult_pos_pos not_le order_trans)
  have "pow2 e \<le> sqrt q"
    using assms(1) pow2_pos [of e] by (metis less_imp_le real_le_rsqrt power2_eq_square)
  then show "pow2 e \<le> \<bar>sqrt q\<bar>" by simp
  have "sqrt q < pow2 (e + 1)"
    using assms(2) pow2_pos [of "e + 1"] by (metis less_imp_le real_less_lsqrt power2_eq_square)
  then show "\<bar>sqrt q\<bar> < pow2 (e + 1)" using q by simp
  show "y = of_int k * pow2 (e - 52)" by (rule assms(3))
  have "y - ?h < sqrt q"
    using assms(4,5) by (metis less_imp_le real_less_rsqrt power2_eq_square diff_gt_0_iff_gt)
  moreover have "sqrt q < y + ?h"
    using assms(4,6) pow2_pos [of "e - 52"]
    by (smt (verit) real_less_lsqrt power2_eq_square half_gt_zero)
  ultimately show "\<bar>sqrt q - y\<bar> < ?h" by linarith
qed

lemma double_step_1: "num_mul doubleOps (- (1 / 2)) (- (1 / 2)) = 1 / 4"
  by (simp only: doubleOps_def number_ops.simps)
     (rule toDouble_eqI [where e = "- 2" and k = "4503599627370496"], simp_all add: pow2_def)

lemma double_step_2: "num_add doubleOps 0 (1 / 4) = 1 / 4"
  by (simp only: doubleOps_def number_ops.simps)
     (rule toDouble_eqI [where e = "- 2" and k = "4503599627370496"], simp_all add: pow2_def)

lemma double_step_3: "num_mul doubleOps (1 / 2) (1 / 2) = 1 / 4"
  by (simp only: doubleOps_def number_ops.simps)
     (rule toDouble_eqI [where e = "- 2" and k = "4503599627370496"], simp_all add: pow2_def)

lemma double_step_4: "num_add doubleOps (1 / 4) (1 / 4) = 1 / 2"
  by (simp only: doubleOps_def number_ops.simps)
     (rule toDouble_eqI [where e = "- 1" and k = "4503599627370496"], simp_all add: pow2_def)

lemma double_step_5: "num_div doubleOps (1 / 2) 2 = 1 / 4"
  by (simp only: doubleOps_def number_ops.simps)
     (rule toDouble_eqI [where e = "- 2" and k = "4503599627370496"], simp_all add: pow2_def)

lemma double_step_6: "num_sqrt doubleOps (1 / 4) = 1 / 2"
  by (simp only: doubleOps_def number_ops.simps)
     (rule toDouble_sqrtI [where e = "- 1" and k = "4503599627370496"], simp_all add: pow2_def)

lemma double_step_7: "num_mul doubleOps 0 0 = 0"
  by (simp add: doubleOps_def toDouble_def)

lemma double_step_8: "num_add doubleOps 0 0 = 0"
  by (simp add: doubleOps_def toDouble_def)

lemma double_step_9: "num_div doubleOps (1 / 4) 2 = 1 / 8"
  by (simp only: doubleOps_def number_ops.simps)
     (rule toDouble_eqI [where e = "- 3" and k = "4503599627370496"], simp_all add: pow2_def)

lemma double_step_10: "num_sqrt doubleOps (1 / 8) = 6369051672525773 / 18014398509481984"
  by (simp only: doubleOps_def number_ops.simps)
     (rule toDouble_sqrtI [where e = "- 2" and k = "6369051672525773"], simp_all add: pow2_def)

lemma double_step_11: "num_mul doubleOps (1 / 64) (1 / 64) = 1 / 4096"
  by (simp only: doubleOps_def number_ops.simps)
     (rule toDouble_eqI [where e = "- 12" and k = "4503599627370496"], simp_all add: pow2_def)

lemma double_step_12: "num_add doubleOps 0 (1 / 4096) = 1 / 4096"
  by (simp only: doubleOps_def number_ops.simps)
     (rule toDouble_eqI [where e = "- 12" and k = "4503599627370496"], simp_all add: pow2_def)

lemma double_step_13: "num_add doubleOps (1 / 4096) 0 = 1 / 4096"
  by (simp only: doubleOps_def number_ops.simps)
     (rule toDouble_eqI [where e = "- 12" and k = "4503599627370496"], simp_all add: pow2_def)

lemma double_step_14: "num_div doubleOps (1 / 4096) 4 = 1 / 16384"
  by (simp only: doubleOps_def number_ops.simps)
     (rule toDouble_eqI [where e = "- 14" and k = "4503599627370496"], simp_all add: pow2_def)

lemma double_step_15: "num_sqrt doubleOps (1 / 16384) = 1 / 128"
  by (simp only: doubleOps_def number_ops.simps)
     (rule toDouble_sqrtI [where e = "- 7" and k = "4503599627370496"], simp_all add: pow2_def)

lemma double_step_16: "num_div doubleOps 0 2 = 0"
  by (simp add: doubleOps_def toDouble_def)

lemma double_step_17: "num_sqrt doubleOps 0 = 0"
  by (simp add: doubleOps_def toDouble_def)

lemma double_step_18: "num_div doubleOps (1 / 4) 1 = 1 / 4"
  by (simp only: doubleOps_def number_ops.simps)
     (rule toDouble_eqI [where e = "- 2" and k = "4503599627370496"], simp_all add: pow2_def)

lemma double_step_19: "num_mul doubleOps (10737417 / 536870912) (10737417 / 536870912) = 115292123831889 / 288230376151711744"
  by (simp only: doubleOps_def number_ops.simps)
     (rule toDouble_eqI [where e = "- 12" and k = "7378695925240896"], simp_all add: pow2_def)

lemma double_step_20: "num_add doubleOps 0 (115292123831889 / 288230376151711744) = 115292123831889 / 288230376151711744"
  by (simp only: doubleOps_def number_ops.simps)
     (rule toDouble_eqI [where e = "- 12" and k = "7378695925240896"], simp_all add: pow2_def)

lemma double_step_21: "num_mul doubleOps (5284157 / 549755813888) (5284157 / 549755813888) = 27922315200649 / 302231454903657293676544"
  by (simp only: doubleOps_def number_ops.simps)
     (rule toDouble_eqI [where e = "- 34" and k = "7148112691366144"], simp_all add: pow2_def)

lemma double_step_22: "num_add doubleOps (115292123831889 / 288230376151711744) (27922315200649 / 302231454903657293676544) = 7378697629483767 / 18446744073709551616"
  by (simp only: doubleOps_def number_ops.simps)
     (rule toDouble_eqI [where e = "- 12" and k = "7378697629483767"], simp_all add: pow2_def)

lemma double_step_23: "num_mul doubleOps (15385185 / 9007199254740992) (15385185 / 9007199254740992) = 236703917484225 / 81129638414606681695789005144064"
  by (simp only: doubleOps_def number_ops.simps)
     (rule toDouble_eqI [where e = "- 59" and k = "7574525359495200"], simp_all add: pow2_def)

lemma double_step_24: "num_add doubleOps (7378697629483767 / 18446744073709551616) (236703917484225 / 81129638414606681695789005144064) = 7378697629483821 / 18446744073709551616"
  by (simp only: doubleOps_def number_ops.simps)
     (rule toDouble_eqI [where e = "- 12" and k = "7378697629483821"], simp_all add: pow2_def)

lemma double_step_25: "num_add doubleOps (7378697629483821 / 18446744073709551616) 0 = 7378697629483821 / 18446744073709551616"
  by (simp only: doubleOps_def number_ops.simps)
     (rule toDouble_eqI [where e = "- 12" and k = "7378697629483821"], simp_all add: pow2_def)

lemma double_step_26: "num_div doubleOps (7378697629483821 / 18446744073709551616) 4 = 7378697629483821 / 73786976294838206464"
  by (simp only: doubleOps_def number_ops.simps)
     (rule toDouble_eqI [where e = "- 14" and k = "7378697629483821"], simp_all add: pow2_def)

lemma double_step_27: "num_sqrt doubleOps (7378697629483821 / 73786976294838206464) = 5764607523034235 / 576460752303423488"
  by (simp only: doubleOps_def number_ops.simps)
     (rule toDouble_sqrtI [where e = "- 7" and k = "5764607523034235"], simp_all add: pow2_def)

lemma double_threshold: "num_0_01 doubleOps = 5764607523034235 / 576460752303423488"
  by (simp only: doubleOps_def number_ops.simps)
     (rule toDouble_eqI [where e = "- 7" and k = "5764607523034235"], simp_all add: pow2_def)

lemmas double_steps =
  double_step_1 double_step_2 double_step_3 double_step_4 double_step_5 double_step_6
  double_step_7 double_step_8 double_step_9 double_step_10 double_step_11 double_step_12
  double_step_13 double_step_14 double_step_15 double_step_16 double_step_17 double_step_18
  double_step_19 double_step_20 double_step_21 double_step_22 double_step_23 double_step_24
  double_step_25 double_step_26 double_step_27

lemma double_rms:
  "rms doubleOps [- (1 / 2), 1 / 2] = 1 / 2"
  "rms doubleOps [0, 1 / 2] = 6369051672525773 / 18014398509481984"
  "rms doubleOps [1 / 64, 0, 0, 0] = 1 / 128"
  "rms doubleOps [0, 0] = 0"
  "rms doubleOps [1 / 2] = 1 / 2"
  "rms doubleOps [10737417 / 536870912, 5284157 / 549755813888, 15385185 / 9007199254740992, 0] = 5764607523034235 / 576460752303423488"
  by (simp_all add: rms_def sumSquares_def double_steps)

lemma double_gate:
  "rms doubleOps f = toDouble (sqrt (toDouble (sumSquares doubleOps f / real (length f))))"
  "num_0_01 doubleOps = toDouble (1 / 100)"
  by (simp_all add: rms_def doubleOps_def)

lemma double_frames:
  "rms doubleOps [- (1 / 2), 1 / 2] > num_0_01 doubleOps"
  "rms doubleOps [0, 1 / 2] > num_0_01 doubleOps"
  "rms doubleOps [1 / 2] > num_0_01 doubleOps"
  "\<not> rms doubleOps [1 / 64, 0, 0, 0] > num_0_01 doubleOps"
  "\<not> rms doubleOps [0, 0] > num_0_01 doubleOps"
  "rms doubleOps edgeFrame = num_0_01 doubleOps"
  by (simp_all add: double_rms double_threshold edgeFrame_def)

lemma edgeFrame_exact:
  "sum_list (map (\<lambda>x. x\<^sup>2) edgeFrame) / real (length edgeFrame) > 1 / 10000"
  "edgeFrame \<noteq> []"
  by (simp_all add: edgeFrame_def power2_eq_square)

lemma onaudioprocess_sent:
  assumes "\<not> proc_isMuted p" and "sessionPromiseRef s = Some sess"
  shows "sent (onaudioprocess env p f s)
           = sent s @ (if f \<noteq> [] \<and> rms (numbers env) f > num_0_01 (numbers env)
                       then [PCM16Blob f] else [])"
  using assms by (simp add: onaudioprocess_def Let_def sent_def sentBlobs_snoc)

lemma onaudioprocess_keeps:
  "processorRef (onaudioprocess env p f s) = processorRef s"
  "sessionPromiseRef s \<noteq> None \<Longrightarrow> sessionPromiseRef (onaudioprocess env p f s) \<noteq> None"
  by (auto simp: onaudioprocess_def Let_def split: option.splits)

lemma frames_sent:
  assumes "processorRef s = Some p" and "\<not> proc_isMuted p" and "sessionPromiseRef s \<noteq> None"
  shows "sent (run env (map AudioProcess fs) s)
           = sent s @ map PCM16Blob
               (filter (\<lambda>f. f \<noteq> [] \<and> rms (numbers env) f > num_0_01 (numbers env)) fs)"
  using assms
proof (induction fs arbitrary: s)
  case Nil
  then show ?case by simp
next
  case (Cons f fs)
  let ?s' = "onaudioprocess env p f s"
  let ?loud = "\<lambda>f. f \<noteq> [] \<and> rms (numbers env) f > num_0_01 (numbers env)"
  from Cons.prems obtain sess where sess: "sessionPromiseRef s = Some sess" by auto
  have p': "processorRef ?s' = Some p" using Cons.prems(1) by (simp add: onaudioprocess_keeps)
  have q': "sessionPromiseRef ?s' \<noteq> None" using Cons.prems(3) by (rule onaudioprocess_keeps)
  have "sent (run env (map AudioProcess (f # fs)) s) = sent (run env (map AudioProcess fs) ?s')"
    using Cons.prems(1) by simp
  also have "\<dots> = sent ?s' @ map PCM16Blob (filter ?loud fs)"
    by (rule Cons.IH [OF p' Cons.prems(2) q'])
  also have "sent ?s' = sent s @ (if ?loud f then [PCM16Blob f] else [])"
    by (rule onaudioprocess_sent [OF Cons.prems(2) sess])
  finally show ?case by simp
qed

text \<open>
  Claim C4. The RMS of a frame is what the handler computes: the sum of the squares of the
  samples, taken in order from 0, divided by the number of samples, and the square root
  of that, each step in the arithmetic of doubles, where every operation rounds its exact
  result to the nearest double; without rounding it is the square root of the mean of the
  squares. For the handler of a running call (the \<^verbatim>\<open>isMuted\<close> of its
  closure is false and the session promise is set), a frame is sent to the session
  exactly when its RMS is greater than the double 0.01; a frame whose RMS is exactly that
  value is not sent. The decision has no memory: of any sequence of frames, exactly those
  above the threshold are sent, in order, whatever came before them.
\<close>

theorem voice_activity_gate:
  assumes "processorRef s = Some p" and "\<not> proc_isMuted p" and "sessionPromiseRef s = Some sess"
  shows "sent (step env (AudioProcess f) s)
           = sent s @ (if f \<noteq> [] \<and> rms (numbers env) f > num_0_01 (numbers env)
                       then [PCM16Blob f] else [])
   \<and> (rms (numbers env) f = num_0_01 (numbers env)
        \<longrightarrow> sent (step env (AudioProcess f) s) = sent s)
   \<and> sent (run env (map AudioProcess fs) s)
           = sent s @ map PCM16Blob
               (filter (\<lambda>f. f \<noteq> [] \<and> rms (numbers env) f > num_0_01 (numbers env)) fs)
   \<and> rms ops f = num_sqrt ops (num_div ops (sumSquares ops f) (real (length f)))
   \<and> sumSquares ops [] = 0
   \<and> sumSquares ops (f @ [x]) = num_add ops (sumSquares ops f) (num_mul ops x x)
   \<and> rms exactOps f = sqrt (sum_list (map (\<lambda>x. x\<^sup>2) f) / real (length f))
   \<and> num_0_01 exactOps = 1 / 100
   \<and> (numbers env = exactOps \<longrightarrow>
        sent (step env (AudioProcess f) s)
          = sent s @ (if f \<noteq> [] \<and> sum_list (map (\<lambda>x. x\<^sup>2) f) / real (length f) > 1 / 10000
                      then [PCM16Blob f] else []))
   \<and> (numbers env = doubleOps \<longrightarrow>
        sent (step env (AudioProcess f) s)
          = sent s @ (if f \<noteq> []
                        \<and> toDouble (sqrt (toDouble (sumSquares doubleOps f / real (length f))))
                            > toDouble (1 / 100)
                      then [PCM16Blob f] else []))"
proof -
  have 1: "sent (step env (AudioProcess f) s)
           = sent s @ (if f \<noteq> [] \<and> rms (numbers env) f > num_0_01 (numbers env)
                       then [PCM16Blob f] else [])"
    using assms(1) onaudioprocess_sent [OF assms(2,3)] by simp
  then have 2: "rms (numbers env) f = num_0_01 (numbers env)
        \<longrightarrow> sent (step env (AudioProcess f) s) = sent s" by simp
  from assms(3) have "sessionPromiseRef s \<noteq> None" by simp
  note 3 = frames_sent [OF assms(1,2) this, of env fs]
  have 4: "rms ops f = num_sqrt ops (num_div ops (sumSquares ops f) (real (length f)))"
    by (simp add: rms_def)
  have 5: "sumSquares ops [] = 0" by (simp add: sumSquares_def)
  note 6 = sumSquares_snoc [of ops f x]
  note 7 = rms_exact [of f]
  note 8 = threshold_exact
  have 9: "sent (step env (AudioProcess f) s)
          = sent s @ (if f \<noteq> [] \<and> sum_list (map (\<lambda>x. x\<^sup>2) f) / real (length f) > 1 / 10000
                      then [PCM16Blob f] else [])" if "numbers env = exactOps"
    using 1 by (simp only: that exact_gate)
  have 10: "sent (step env (AudioProcess f) s)
          = sent s @ (if f \<noteq> []
                        \<and> toDouble (sqrt (toDouble (sumSquares doubleOps f / real (length f))))
                            > toDouble (1 / 100)
                      then [PCM16Blob f] else [])" if "numbers env = doubleOps"
    using 1 by (simp only: that double_gate)
  from 1 2 3 4 5 6 7 8 9 10 show ?thesis by blast
qed

theorem voice_activity_gate_witness:
  "processorRef connected0 = Some (ScriptProcessor False)
   \<and> \<not> proc_isMuted (ScriptProcessor False)
   \<and> sessionPromiseRef connected0 = Some \<lparr>sess_isMuted = False, sess_calls = []\<rparr>
   \<and> numbers env0 = doubleOps
   \<and> rms (numbers env0) edgeFrame = num_0_01 (numbers env0)
   \<and> sum_list (map (\<lambda>x. x\<^sup>2) edgeFrame) / real (length edgeFrame) > 1 / 10000
   \<and> sent (step env0 (AudioProcess edgeFrame) connected0) = []
   \<and> sent (step env0 (AudioProcess [- (1 / 2), 1 / 2]) connected0)
       = [PCM16Blob [- (1 / 2), 1 / 2]]
   \<and> sent (step env0 (AudioProcess [1 / 64, 0, 0, 0]) connected0) = []
   \<and> sent (run env0
         (map AudioProcess [[0, 0], [0, 1 / 2], [1 / 64, 0, 0, 0], [], edgeFrame, [- (1 / 2), 1 / 2]])
         connected0)
       = [PCM16Blob [0, 1 / 2], PCM16Blob [- (1 / 2), 1 / 2]]
   \<and> numbers (env0\<lparr>numbers := exactOps\<rparr>) = exactOps
   \<and> sent (step (env0\<lparr>numbers := exactOps\<rparr>) (AudioProcess edgeFrame) connected0)
       = [PCM16Blob edgeFrame]"
proof -
  have p: "processorRef connected0 = Some (ScriptProcessor False)"
    and m: "\<not> proc_isMuted (ScriptProcessor False)"
    and q: "sessionPromiseRef connected0 = Some \<lparr>sess_isMuted = False, sess_calls = []\<rparr>"
    by (simp_all add: connected0_eq)
  have s0: "sent connected0 = []" by (simp add: sent_def connected0_eq)
  have edge: "rms (numbers env0) edgeFrame = num_0_01 (numbers env0)"
    by (simp only: numbers_env0 double_frames)
  have ex: "numbers (env0\<lparr>numbers := exactOps\<rparr>) = exactOps" by simp
  have ne: "[- (1 / 2), 1 / 2 :: real] \<noteq> []" "[1 / 64, 0, 0, 0 :: real] \<noteq> []" by simp_all
  note at_edge = voice_activity_gate [OF p m q, where env = env0 and f = edgeFrame]
  note loud = voice_activity_gate [OF p m q, where env = env0 and f = "[- (1 / 2), 1 / 2]"
      and fs = "[[0, 0], [0, 1 / 2], [1 / 64, 0, 0, 0], [], edgeFrame, [- (1 / 2), 1 / 2]]"]
  note quiet = voice_activity_gate [OF p m q, where env = env0 and f = "[1 / 64, 0, 0, 0]"]
  note ideal = voice_activity_gate [OF p m q, where env = "env0\<lparr>numbers := exactOps\<rparr>"
      and f = edgeFrame]
  from at_edge edge have "sent (step env0 (AudioProcess edgeFrame) connected0) = sent connected0"
    by blast
  then have a: "sent (step env0 (AudioProcess edgeFrame) connected0) = []" by (simp only: s0)
  from loud have "sent (step env0 (AudioProcess [- (1 / 2), 1 / 2]) connected0)
      = sent connected0 @ (if [- (1 / 2), 1 / 2 :: real] \<noteq> []
            \<and> rms (numbers env0) [- (1 / 2), 1 / 2] > num_0_01 (numbers env0)
          then [PCM16Blob [- (1 / 2), 1 / 2]] else [])" by blast
  then have b: "sent (step env0 (AudioProcess [- (1 / 2), 1 / 2]) connected0)
       = [PCM16Blob [- (1 / 2), 1 / 2]]"
    by (simp only: s0 numbers_env0 double_frames ne) simp
  from quiet have "sent (step env0 (AudioProcess [1 / 64, 0, 0, 0]) connected0)
      = sent connected0 @ (if [1 / 64, 0, 0, 0 :: real] \<noteq> []
            \<and> rms (numbers env0) [1 / 64, 0, 0, 0] > num_0_01 (numbers env0)
          then [PCM16Blob [1 / 64, 0, 0, 0]] else [])" by blast
  then have c: "sent (step env0 (AudioProcess [1 / 64, 0, 0, 0]) connected0) = []"
    by (simp only: s0 numbers_env0 double_frames ne) simp
  have edge_not_above: "\<not> rms doubleOps edgeFrame > num_0_01 doubleOps"
    by (simp add: double_frames)
  from loud have "sent (run env0
         (map AudioProcess [[0, 0], [0, 1 / 2], [1 / 64, 0, 0, 0], [], edgeFrame, [- (1 / 2), 1 / 2]])
         connected0)
      = sent connected0 @ map PCM16Blob
          (filter (\<lambda>f. f \<noteq> [] \<and> rms (numbers env0) f > num_0_01 (numbers env0))
             [[0, 0], [0, 1 / 2], [1 / 64, 0, 0, 0], [], edgeFrame, [- (1 / 2), 1 / 2]])"
    by blast
  then have d: "sent (run env0
         (map AudioProcess [[0, 0], [0, 1 / 2], [1 / 64, 0, 0, 0], [], edgeFrame, [- (1 / 2), 1 / 2]])
         connected0)
       = [PCM16Blob [0, 1 / 2], PCM16Blob [- (1 / 2), 1 / 2]]"
    by (simp only: s0 numbers_env0 filter.simps double_frames edge_not_above) simp
  from ideal ex have "sent (step (env0\<lparr>numbers := exactOps\<rparr>) (AudioProcess edgeFrame) connected0)
      = sent connected0 @ (if edgeFrame \<noteq> []
            \<and> sum_list (map (\<lambda>x. x\<^sup>2) edgeFrame) / real (length edgeFrame) > 1 / 10000
          then [PCM16Blob edgeFrame] else [])" by blast
  then have e: "sent (step (env0\<lparr>numbers := exactOps\<rparr>) (AudioProcess edgeFrame) connected0)
       = [PCM16Blob edgeFrame]"
    by (simp only: s0 edgeFrame_exact) simp
  from p m q numbers_env0 edge edgeFrame_exact(1) a b c d ex e show ?thesis by blast
qed

text \<open>
  Claim C6 against the code. The handler installed by \<^verbatim>\<open>setupAudioInput\<close> reads the
  \<^verbatim>\<open>isMuted\<close> of its closure, which never changes. After a call is started unmuted, a
  click on mute sets the React state, yet a loud frame is still sent. And when a call is
  retried while muted, the handler of the new processor drops every frame even after
  mute is switched off again, while the processor of the first call, which nothing has
  disconnected, goes on sending its frames to the new session.
\<close>

theorem mute_does_not_gate_frames:
  "isMuted (run env0 [Click MuteButton] connected0)
   \<and> sent (run env0 [Click MuteButton, AudioProcess [1 / 2]] connected0) = [PCM16Blob [1 / 2]]
   \<and> \<not> isMuted (run env0 [Click MuteButton, OnError, Click RetryButton,
          GetUserMediaResolved [Live], OnOpen, Click MuteButton] connected0)
   \<and> sent (run env0 [Click MuteButton, OnError, Click RetryButton,
          GetUserMediaResolved [Live], OnOpen, Click MuteButton, AudioProcess [1 / 2]] connected0) = []
   \<and> sent (run env0 [Click MuteButton, OnError, Click RetryButton,
          GetUserMediaResolved [Live], OnOpen, OrphanProcess 0 [1 / 2]] connected0)
       = [PCM16Blob [1 / 2]]"
  by (simp add: connected0_eq render_def toggleMute_def onaudioprocess_def double_frames sent_def
      onerror_def startSession_def env0_def getUserMediaResolved_def onopen_def
      setupAudioInput_def Let_def)

section \<open>Playback scheduling: proofs\<close>

lemma handleTranscription_playback:
  "started (handleTranscription r f now s) = started s"
  "nextStartTimeRef (handleTranscription r f now s) = nextStartTimeRef s"
  "audioQueueRef (handleTranscription r f now s) = audioQueueRef s"
  "stopped (handleTranscription r f now s) = stopped s"
  "status (handleTranscription r f now s) = status s"
  "errorMsg (handleTranscription r f now s) = errorMsg s"
  "console (handleTranscription r f now s) = console s"
  by (simp_all add: handleTranscription_def split: option.splits)

lemma handleAudio_good:
  assumes "audioContextRef s = Some ctx" and "decodeAudioData env b = Some d"
  shows "started (handleAudio env b s)
           = started s @ [(max (nextStartTimeRef s) (ctx_currentTime ctx), d)]"
    and "nextStartTimeRef (handleAudio env b s) = max (nextStartTimeRef s) (ctx_currentTime ctx) + d"
    and "audioQueueRef (handleAudio env b s) = audioQueueRef s @ [length (started s)]"
    and "mountedRef (handleAudio env b s) = mountedRef s"
    and "\<exists>ctx'. audioContextRef (handleAudio env b s) = Some ctx'
           \<and> ctx_currentTime ctx' = ctx_currentTime ctx"
    and "stopped (handleAudio env b s) = stopped s"
  using assms by (simp_all add: handleAudio_def Let_def)

lemma onmessage_good:
  assumes "mountedRef s" and "audioContextRef s = Some ctx" and "goodChunk env m"
  shows "started (onmessage env m s)
           = started s @ [(max (nextStartTimeRef s) (ctx_currentTime ctx), chunkDuration env m)]"
    and "nextStartTimeRef (onmessage env m s)
           = max (nextStartTimeRef s) (ctx_currentTime ctx) + chunkDuration env m"
    and "audioQueueRef (onmessage env m s) = audioQueueRef s @ [length (started s)]"
    and "mountedRef (onmessage env m s)"
    and "\<exists>ctx'. audioContextRef (onmessage env m s) = Some ctx'
           \<and> ctx_currentTime ctx' = ctx_currentTime ctx"
proof -
  from assms(3) obtain b d where b: "inlineData m = Some b" "b \<noteq> []"
    and d: "decodeAudioData env b = Some d" and i: "\<not> interrupted m"
    by (auto simp: goodChunk_def split: option.splits)
  let ?s2 = "handleTranscription User (inputTranscription m) (dateNow env)
               (handleTranscription Model (outputTranscription m) (dateNow env) s)"
  have eq: "onmessage env m s = handleAudio env b ?s2"
    using assms(1) b i by (simp add: onmessage_def Let_def)
  have c: "audioContextRef ?s2 = Some ctx" using assms(2) by (simp add: handleTranscription_frame)
  have m2: "mountedRef ?s2" using assms(1) by (simp add: handleTranscription_frame)
  have cd: "chunkDuration env m = d" using b d by (simp add: chunkDuration_def)
  note h = handleAudio_good [OF c d]
  show "started (onmessage env m s)
           = started s @ [(max (nextStartTimeRef s) (ctx_currentTime ctx), chunkDuration env m)]"
    using h(1) by (simp add: eq cd handleTranscription_playback)
  show "nextStartTimeRef (onmessage env m s)
           = max (nextStartTimeRef s) (ctx_currentTime ctx) + chunkDuration env m"
    using h(2) by (simp add: eq cd handleTranscription_playback)
  show "audioQueueRef (onmessage env m s) = audioQueueRef s @ [length (started s)]"
    using h(3) by (simp add: eq handleTranscription_playback)
  show "mountedRef (onmessage env m s)" using h(4) m2 by (simp add: eq)
  show "\<exists>ctx'. audioContextRef (onmessage env m s) = Some ctx'
           \<and> ctx_currentTime ctx' = ctx_currentTime ctx"
    using h(5) by (simp add: eq)
qed

lemma setCurrentTime_simps:
  "started (setCurrentTime t s) = started s"
  "nextStartTimeRef (setCurrentTime t s) = nextStartTimeRef s"
  "audioQueueRef (setCurrentTime t s) = audioQueueRef s"
  "mountedRef (setCurrentTime t s) = mountedRef s"
  "stopped (setCurrentTime t s) = stopped s"
  "audioContextRef s = Some ctx \<Longrightarrow>
     audioContextRef (setCurrentTime t s) = Some (ctx\<lparr>ctx_currentTime := t\<rparr>)"
  by (simp_all add: setCurrentTime_def)

lemma run_arrivals:
  assumes "mountedRef s" and "audioContextRef s = Some ctx"
    and "list_all (goodChunk env) (map snd tms)"
  shows "started (run env (arrivals tms) s)
           = started s @ schedule (nextStartTimeRef s) (map (\<lambda>tm. (fst tm, chunkDuration env (snd tm))) tms)"
  using assms
proof (induction tms arbitrary: s ctx)
  case Nil
  then show ?case by simp
next
  case (Cons tm tms)
  obtain t m where tm: "tm = (t, m)" by (cases tm)
  let ?s1 = "setCurrentTime t s"
  let ?s2 = "onmessage env m ?s1"
  from Cons.prems tm have g: "goodChunk env m" and gs: "list_all (goodChunk env) (map snd tms)"
    by simp_all
  have m1: "mountedRef ?s1" using Cons.prems(1) by (simp add: setCurrentTime_simps)
  have c1: "audioContextRef ?s1 = Some (ctx\<lparr>ctx_currentTime := t\<rparr>)"
    using Cons.prems(2) by (rule setCurrentTime_simps)
  note o = onmessage_good [OF m1 c1 g]
  from o(5) obtain ctx' where c2: "audioContextRef ?s2 = Some ctx'" by blast
  have "started (run env (arrivals (tm # tms)) s) = started (run env (arrivals tms) ?s2)"
    by (simp add: tm)
  also have "\<dots> = started ?s2 @ schedule (nextStartTimeRef ?s2)
                 (map (\<lambda>tm. (fst tm, chunkDuration env (snd tm))) tms)"
    by (rule Cons.IH [OF o(4) c2 gs])
  finally show ?case using o(1,2) by (simp add: tm setCurrentTime_simps)
qed

lemma length_schedule: "length (schedule c bs) = length bs"
  by (induction c bs rule: schedule.induct) auto

lemma map_snd_schedule: "map snd (schedule c bs) = map snd bs"
  by (induction c bs rule: schedule.induct) auto

lemma schedule_lower:
  "list_all (\<lambda>b. 0 \<le> snd b) bs \<Longrightarrow> j < length bs \<Longrightarrow> c \<le> fst (schedule c bs ! j)"
proof (induction c bs arbitrary: j rule: schedule.induct)
  case (1 cursor)
  then show ?case by simp
next
  case (2 cursor clock d bs)
  show ?case
  proof (cases j)
    case 0
    then show ?thesis by simp
  next
    case (Suc k)
    with 2 have "max cursor clock + d \<le> fst (schedule (max cursor clock + d) bs ! k)" by simp
    moreover from 2 have "0 \<le> d" by simp
    ultimately show ?thesis using Suc by simp
  qed
qed

lemma schedule_no_overlap:
  "list_all (\<lambda>b. 0 \<le> snd b) bs \<Longrightarrow> i < j \<Longrightarrow> j < length bs \<Longrightarrow>
     fst (schedule c bs ! i) + snd (schedule c bs ! i) \<le> fst (schedule c bs ! j)"
proof (induction c bs arbitrary: i j rule: schedule.induct)
  case (1 cursor)
  then show ?case by simp
next
  case (2 cursor clock d bs)
  from "2.prems" obtain k where j: "j = Suc k" and k: "k < length bs" by (cases j) auto
  from "2.prems" have nn: "list_all (\<lambda>b. 0 \<le> snd b) bs" by simp
  show ?case
  proof (cases i)
    case 0
    with schedule_lower [OF nn k, of "max cursor clock + d"] show ?thesis by (simp add: j)
  next
    case (Suc h)
    with "2.prems" j have "h < k" by simp
    from "2.IH" [OF nn this k] show ?thesis by (simp add: j Suc)
  qed
qed

lemma schedule_from_cursor:
  "(\<forall>i < length bs. fst (bs ! i) \<le> c + sum_list (take i (map snd bs))) \<Longrightarrow> i < length bs \<Longrightarrow>
     fst (schedule c bs ! i) = c + sum_list (take i (map snd bs))"
proof (induction c bs arbitrary: i rule: schedule.induct)
  case (1 cursor)
  then show ?case by simp
next
  case (2 cursor clock d bs)
  from "2.prems"(1) have "fst (((clock, d) # bs) ! 0) \<le> cursor + sum_list (take 0 (map snd ((clock, d) # bs)))"
    by blast
  then have le: "clock \<le> cursor" by simp
  then have mx: "max cursor clock = cursor" by simp
  show ?case
  proof (cases i)
    case 0
    then show ?thesis by (simp add: mx)
  next
    case (Suc k)
    with "2.prems" have k: "k < length bs" by simp
    have "\<forall>i < length bs. fst (bs ! i) \<le> (max cursor clock + d) + sum_list (take i (map snd bs))"
    proof (intro allI impI)
      fix i assume "i < length bs"
      then have "Suc i < length ((clock, d) # bs)" by simp
      with "2.prems"(1) have "fst (((clock, d) # bs) ! Suc i)
          \<le> cursor + sum_list (take (Suc i) (map snd ((clock, d) # bs)))" by blast
      then show "fst (bs ! i) \<le> (max cursor clock + d) + sum_list (take i (map snd bs))"
        by (simp add: mx)
    qed
    from "2.IH" [OF this k] show ?thesis by (simp add: Suc mx)
  qed
qed

lemma schedule_on_time:
  assumes "\<forall>i. 0 < i \<and> i < length bs \<longrightarrow>
             fst (bs ! i) \<le> fst (schedule c bs ! 0) + sum_list (take i (map snd bs))"
    and "i < length bs"
  shows "fst (schedule c bs ! i) = fst (schedule c bs ! 0) + sum_list (take i (map snd bs))"
proof (cases bs)
  case Nil
  with assms show ?thesis by simp
next
  case (Cons b rest)
  obtain clock d where b: "b = (clock, d)" by (cases b)
  let ?S = "max c clock"
  have first: "fst (schedule c bs ! 0) = ?S" by (simp add: Cons b)
  show ?thesis
  proof (cases i)
    case 0
    then show ?thesis by simp
  next
    case (Suc k)
    with assms(2) Cons have k: "k < length rest" by simp
    have "\<forall>i < length rest. fst (rest ! i) \<le> (?S + d) + sum_list (take i (map snd rest))"
    proof (intro allI impI)
      fix i assume "i < length rest"
      then have "0 < Suc i \<and> Suc i < length bs" by (simp add: Cons)
      with assms(1) have "fst (bs ! Suc i) \<le> fst (schedule c bs ! 0) + sum_list (take (Suc i) (map snd bs))"
        by blast
      then show "fst (rest ! i) \<le> (?S + d) + sum_list (take i (map snd rest))"
        by (simp add: Cons b)
    qed
    from schedule_from_cursor [OF this k]
    show ?thesis by (simp add: Cons b Suc)
  qed
qed

lemma goodChunk_duration: "goodChunk env m \<Longrightarrow> 0 \<le> chunkDuration env m"
  by (auto simp: goodChunk_def chunkDuration_def split: option.splits)

lemma audioChunk_good [simp]:
  "goodChunk env0 (audioChunk ''AAAA'')" "goodChunk env0 (audioChunk ''AAAAAAAA'')"
  "chunkDuration env0 (audioChunk ''AAAA'') = 1" "chunkDuration env0 (audioChunk ''AAAAAAAA'') = 2"
  by (simp_all add: goodChunk_def chunkDuration_def audioChunk_def env0_def)

lemma connected0_playback:
  "mountedRef connected0" "started connected0 = []" "nextStartTimeRef connected0 = 0"
  "audioContextRef connected0 = Some \<lparr>ctx_currentTime = 0, ctx_state = Running\<rparr>"
  by (simp_all add: connected0_eq)

lemma on_time_run:
  "started (run env0 (arrivals [(0, audioChunk ''AAAA''), (1 / 2, audioChunk ''AAAAAAAA''),
      (3, audioChunk ''AAAA'')]) connected0) = [(0, 1), (1, 2), (3, 1)]"
  using run_arrivals [OF connected0_playback(1,4), of env0
      "[(0, audioChunk ''AAAA''), (1 / 2, audioChunk ''AAAAAAAA''), (3, audioChunk ''AAAA'')]"]
  by (simp add: connected0_playback)

lemma late_run:
  "started (run env0 (arrivals [(0, audioChunk ''AAAA''), (5, audioChunk ''AAAA'')]) connected0)
     = [(0, 1), (5, 1)]"
  using run_arrivals [OF connected0_playback(1,4), of env0
      "[(0, audioChunk ''AAAA''), (5, audioChunk ''AAAA'')]"]
  by (simp add: connected0_playback)

text \<open>
  Claim C1, as the code has it. For audio chunks that decode, delivered in order with no
  interruption, each buffer starts at the maximum of the cursor and the output clock at
  its arrival, and the cursor then moves to that start plus the buffer's duration. No
  two scheduled buffers overlap, whatever the arrival times. Buffer i starts at the first
  buffer's start plus the durations of the buffers before it provided every later chunk
  arrives on time, that is, no later than that position.
\<close>

theorem playback_schedule:
  assumes "mountedRef s" and "audioContextRef s = Some ctx"
    and "list_all (goodChunk env) (map snd tms)"
    and "new = drop (length (started s)) (started (run env (arrivals tms) s))"
    and "ds = map (\<lambda>tm. chunkDuration env (snd tm)) tms"
  shows "length new = length tms
   \<and> map snd new = ds
   \<and> (tms \<noteq> [] \<longrightarrow> fst (new ! 0) = max (nextStartTimeRef s) (fst (tms ! 0)))
   \<and> (\<forall>i j. i < j \<and> j < length new \<longrightarrow> fst (new ! i) + snd (new ! i) \<le> fst (new ! j))
   \<and> ((\<forall>i. 0 < i \<and> i < length tms \<longrightarrow> fst (tms ! i) \<le> fst (new ! 0) + sum_list (take i ds))
        \<longrightarrow> (\<forall>i < length tms. fst (new ! i) = fst (new ! 0) + sum_list (take i ds)))"
proof -
  let ?bs = "map (\<lambda>tm. (fst tm, chunkDuration env (snd tm))) tms"
  have new: "new = schedule (nextStartTimeRef s) ?bs"
    using run_arrivals [OF assms(1,2,3)] assms(4) by simp
  have len: "length ?bs = length tms" by simp
  have ds: "map snd ?bs = ds" using assms(5) by (simp add: comp_def)
  have clk: "fst (?bs ! i) = fst (tms ! i)" if "i < length tms" for i using that by simp
  have nn: "list_all (\<lambda>b. 0 \<le> snd b) ?bs"
    using assms(3) by (induction tms) (auto simp: goodChunk_duration)
  have 1: "length new = length tms" by (simp add: new length_schedule)
  have 2: "map snd new = ds" by (simp only: new map_snd_schedule ds)
  have 3: "fst (new ! 0) = max (nextStartTimeRef s) (fst (tms ! 0))" if "tms \<noteq> []"
    using that by (cases tms) (simp_all add: new)
  have 4: "fst (new ! i) + snd (new ! i) \<le> fst (new ! j)" if "i < j \<and> j < length new" for i j
  proof -
    from that 1 have "i < j" "j < length ?bs" by simp_all
    from schedule_no_overlap [OF nn this] show ?thesis by (simp add: new)
  qed
  have 5: "fst (new ! i) = fst (new ! 0) + sum_list (take i ds)"
    if late: "\<forall>i. 0 < i \<and> i < length tms \<longrightarrow> fst (tms ! i) \<le> fst (new ! 0) + sum_list (take i ds)"
      and i: "i < length tms" for i
  proof -
    have "\<forall>i. 0 < i \<and> i < length ?bs \<longrightarrow>
            fst (?bs ! i) \<le> fst (schedule (nextStartTimeRef s) ?bs ! 0) + sum_list (take i (map snd ?bs))"
    proof (intro allI impI)
      fix k assume k: "0 < k \<and> k < length ?bs"
      then have "k < length tms" by simp
      with late k clk [of k] show "fst (?bs ! k)
          \<le> fst (schedule (nextStartTimeRef s) ?bs ! 0) + sum_list (take k (map snd ?bs))"
        unfolding ds new [symmetric] by simp
    qed
    moreover have "i < length ?bs" using i by simp
    ultimately have "fst (schedule (nextStartTimeRef s) ?bs ! i)
        = fst (schedule (nextStartTimeRef s) ?bs ! 0) + sum_list (take i (map snd ?bs))"
      by (rule schedule_on_time)
    then show ?thesis unfolding ds new [symmetric] .
  qed
  from 1 2 3 4 5 show ?thesis by blast
qed

theorem playback_schedule_witness:
  "mountedRef connected0
   \<and> audioContextRef connected0 = Some \<lparr>ctx_currentTime = 0, ctx_state = Running\<rparr>
   \<and> list_all (goodChunk env0) (map snd [(0, audioChunk ''AAAA''),
         (1 / 2, audioChunk ''AAAAAAAA''), (3 :: real, audioChunk ''AAAA'')])
   \<and> started (run env0 (arrivals [(0, audioChunk ''AAAA''), (1 / 2, audioChunk ''AAAAAAAA''),
         (3, audioChunk ''AAAA'')]) connected0) = [(0, 1), (1, 2), (3, 1)]
   \<and> fst ([(0, 1), (1, 2), (3 :: real, 1 :: real)] ! 2)
       = fst ([(0, 1), (1, 2), (3 :: real, 1 :: real)] ! 0) + sum_list (take 2 [1, 2, 1])
   \<and> fst ([(0, 1), (1, 2), (3 :: real, 1 :: real)] ! 1) + snd ([(0, 1), (1, 2), (3 :: real, 1 :: real)] ! 1)
       \<le> fst ([(0, 1), (1, 2), (3 :: real, 1 :: real)] ! 2)"
proof -
  let ?tms = "[(0, audioChunk ''AAAA''), (1 / 2, audioChunk ''AAAAAAAA''), (3 :: real, audioChunk ''AAAA'')]"
  let ?new = "[(0, 1), (1, 2), (3 :: real, 1 :: real)]"
  let ?ds = "[1, 2, 1 :: real]"
  have g: "list_all (goodChunk env0) (map snd ?tms)" by simp
  have n: "?new = drop (length (started connected0)) (started (run env0 (arrivals ?tms) connected0))"
    by (simp only: on_time_run connected0_playback) simp
  have d: "?ds = map (\<lambda>tm. chunkDuration env0 (snd tm)) ?tms" by simp
  note t = playback_schedule [OF connected0_playback(1,4) g n d]
  have late: "\<forall>i. 0 < i \<and> i < length ?tms \<longrightarrow> fst (?tms ! i) \<le> fst (?new ! 0) + sum_list (take i ?ds)"
  proof (intro allI impI)
    fix i assume "0 < i \<and> i < length ?tms"
    then have "i = 1 \<or> i = 2" by auto
    then show "fst (?tms ! i) \<le> fst (?new ! 0) + sum_list (take i ?ds)"
      by (auto simp: numeral_2_eq_2)
  qed
  from t late have "\<forall>i < length ?tms. fst (?new ! i) = fst (?new ! 0) + sum_list (take i ?ds)"
    by blast
  then have a: "fst (?new ! 2) = fst (?new ! 0) + sum_list (take 2 ?ds)" by simp
  from t have "\<forall>i j. i < j \<and> j < length ?new \<longrightarrow> fst (?new ! i) + snd (?new ! i) \<le> fst (?new ! j)"
    by blast
  then have "(1 :: nat) < 2 \<and> 2 < length ?new \<longrightarrow> fst (?new ! 1) + snd (?new ! 1) \<le> fst (?new ! 2)"
    by blast
  then have b: "fst (?new ! 1) + snd (?new ! 1) \<le> fst (?new ! 2)" by simp
  from connected0_playback(1,4) g on_time_run a b show ?thesis by blast
qed

text \<open>
  The claim as stated has no condition on the arrival times. Two chunks of one second
  each, the second arriving when the clock reads 5: it starts at 5, not at 1.
\<close>

theorem late_chunk_opens_gap_counterexample:
  "list_all (goodChunk env0) [audioChunk ''AAAA'', audioChunk ''AAAA'']
   \<and> started (run env0 (arrivals [(0, audioChunk ''AAAA''), (5, audioChunk ''AAAA'')]) connected0)
       = [(0, 1), (5, 1)]
   \<and> fst (started (run env0 (arrivals [(0, audioChunk ''AAAA''), (5, audioChunk ''AAAA'')])
          connected0) ! 1)
       \<noteq> fst (started (run env0 (arrivals [(0, audioChunk ''AAAA''), (5, audioChunk ''AAAA'')])
          connected0) ! 0)
         + sum_list (take 1 [1, 1])"
  by (simp only: late_run) simp

section \<open>Interruption: proofs\<close>

lemma handleInterruption_eq:
  assumes "audioContextRef s = Some ctx"
  shows "handleInterruption s =
           s\<lparr>console := console s @ [''Interrupted!''],
             stopped := stopped s @ audioQueueRef s,
             audioQueueRef := [],
             nextStartTimeRef := ctx_currentTime ctx\<rparr>"
  using assms by (simp add: handleInterruption_def Let_def)

lemma handleAudio_context:
  assumes "audioContextRef s = Some ctx"
  shows "\<exists>ctx'. audioContextRef (handleAudio env b s) = Some ctx'
           \<and> ctx_currentTime ctx' = ctx_currentTime ctx"
    and "set (audioQueueRef s) \<subseteq> set (audioQueueRef (handleAudio env b s))"
    and "mountedRef (handleAudio env b s) = mountedRef s"
  using assms by (auto simp: handleAudio_def Let_def split: option.splits)

lemma onmessage_interrupted:
  assumes "mountedRef s" and "audioContextRef s = Some ctx" and "interrupted m"
  shows "audioQueueRef (onmessage env m s) = []"
    and "set (audioQueueRef s) \<subseteq> set (stopped (onmessage env m s))"
    and "nextStartTimeRef (onmessage env m s) = ctx_currentTime ctx"
    and "mountedRef (onmessage env m s)"
    and "\<exists>ctx'. audioContextRef (onmessage env m s) = Some ctx'
           \<and> ctx_currentTime ctx' = ctx_currentTime ctx"
proof -
  let ?s2 = "handleTranscription User (inputTranscription m) (dateNow env)
               (handleTranscription Model (outputTranscription m) (dateNow env) s)"
  let ?s3 = "case inlineData m of None \<Rightarrow> ?s2
             | Some b \<Rightarrow> if b = [] then ?s2 else handleAudio env b ?s2"
  have eq: "onmessage env m s = handleInterruption ?s3"
    using assms(1,3) by (simp add: onmessage_def Let_def)
  have c2: "audioContextRef ?s2 = Some ctx" using assms(2) by (simp add: handleTranscription_frame)
  have m2: "mountedRef ?s2" using assms(1) by (simp add: handleTranscription_frame)
  have q2: "audioQueueRef ?s2 = audioQueueRef s" by (simp add: handleTranscription_playback)
  have c3: "\<exists>ctx'. audioContextRef ?s3 = Some ctx' \<and> ctx_currentTime ctx' = ctx_currentTime ctx"
    using c2 handleAudio_context(1) [OF c2] by (auto split: option.splits)
  have q3: "set (audioQueueRef s) \<subseteq> set (audioQueueRef ?s3)"
    using q2 handleAudio_context(2) [OF c2] by (auto split: option.splits)
  have m3: "mountedRef ?s3" using m2 handleAudio_context(3) [OF c2] by (auto split: option.splits)
  from c3 obtain ctx' where c': "audioContextRef ?s3 = Some ctx'"
    and t': "ctx_currentTime ctx' = ctx_currentTime ctx" by blast
  note h = handleInterruption_eq [OF c']
  show "audioQueueRef (onmessage env m s) = []" by (simp add: eq h)
  show "set (audioQueueRef s) \<subseteq> set (stopped (onmessage env m s))"
    using q3 by (auto simp: eq h)
  show "nextStartTimeRef (onmessage env m s) = ctx_currentTime ctx" by (simp add: eq h t')
  show "mountedRef (onmessage env m s)" using m3 by (simp add: eq h)
  show "\<exists>ctx'. audioContextRef (onmessage env m s) = Some ctx'
           \<and> ctx_currentTime ctx' = ctx_currentTime ctx"
    using c' t' by (simp add: eq h)
qed

lemma playing0_playback:
  "mountedRef playing0" "started playing0 = [(0, 1)]" "nextStartTimeRef playing0 = 1"
  "audioContextRef playing0 = Some \<lparr>ctx_currentTime = 0, ctx_state = Running\<rparr>"
  "audioQueueRef playing0 = [0]" "stopped playing0 = []"
  by (simp_all add: playing0_eq)

lemma interrupted_run:
  "run env0 [ClockReads 5, OnMessage interruption] playing0
     = playing0\<lparr>audioContextRef := Some \<lparr>ctx_currentTime = 5, ctx_state = Running\<rparr>,
         console := [''Session opened'', ''Interrupted!''],
         stopped := [0], audioQueueRef := [], nextStartTimeRef := 5\<rparr>"
  by (simp add: playing0_eq setCurrentTime_def interruption_def onmessage_def
      handleTranscription_def handleInterruption_def)

text \<open>
  Claim C2, as the code has it. When a message with the interruption flag is handled
  while the output clock reads T, every source in the queue is stopped, the queue becomes
  empty and the cursor is set to T. The next buffer then starts at the maximum of T and
  the clock reading at its arrival: at T if the clock still reads T, whatever cursor
  had been projected before the interruption.
\<close>

theorem interruption_hard_cut:
  assumes "mountedRef s" and "audioContextRef s = Some ctx" and "interrupted m"
    and "goodChunk env next"
  shows "audioQueueRef (onmessage env m s) = []
   \<and> set (audioQueueRef s) \<subseteq> set (stopped (onmessage env m s))
   \<and> nextStartTimeRef (onmessage env m s) = ctx_currentTime ctx
   \<and> started (onmessage env next (onmessage env m s))
       = started (onmessage env m s) @ [(ctx_currentTime ctx, chunkDuration env next)]
   \<and> started (onmessage env next (setCurrentTime t (onmessage env m s)))
       = started (onmessage env m s) @ [(max (ctx_currentTime ctx) t, chunkDuration env next)]"
proof -
  let ?s' = "onmessage env m s"
  note i = onmessage_interrupted [OF assms(1,2,3), of env]
  from i(5) obtain ctx' where c': "audioContextRef ?s' = Some ctx'"
    and t': "ctx_currentTime ctx' = ctx_currentTime ctx" by blast
  have a: "started (onmessage env next ?s')
       = started ?s' @ [(ctx_currentTime ctx, chunkDuration env next)]"
    using onmessage_good(1) [OF i(4) c' assms(4)] by (simp add: i(3) t')
  have m1: "mountedRef (setCurrentTime t ?s')" using i(4) by (simp add: setCurrentTime_simps)
  have c1: "audioContextRef (setCurrentTime t ?s') = Some (ctx'\<lparr>ctx_currentTime := t\<rparr>)"
    using c' by (rule setCurrentTime_simps)
  have b: "started (onmessage env next (setCurrentTime t ?s'))
       = started ?s' @ [(max (ctx_currentTime ctx) t, chunkDuration env next)]"
    using onmessage_good(1) [OF m1 c1 assms(4)] by (simp add: i(3) setCurrentTime_simps)
  from i(1,2,3) a b show ?thesis by blast
qed

theorem interruption_hard_cut_witness:
  "mountedRef (setCurrentTime 5 playing0)
   \<and> audioContextRef (setCurrentTime 5 playing0) = Some \<lparr>ctx_currentTime = 5, ctx_state = Running\<rparr>
   \<and> interrupted interruption
   \<and> goodChunk env0 (audioChunk ''AAAA'')
   \<and> nextStartTimeRef playing0 = 1
   \<and> audioQueueRef (setCurrentTime 5 playing0) = [0]
   \<and> audioQueueRef (onmessage env0 interruption (setCurrentTime 5 playing0)) = []
   \<and> set [0] \<subseteq> set (stopped (onmessage env0 interruption (setCurrentTime 5 playing0)))
   \<and> nextStartTimeRef (onmessage env0 interruption (setCurrentTime 5 playing0)) = 5
   \<and> started (onmessage env0 (audioChunk ''AAAA'')
         (onmessage env0 interruption (setCurrentTime 5 playing0))) = [(0, 1), (5, 1)]"
proof -
  have m: "mountedRef (setCurrentTime 5 playing0)"
    and c: "audioContextRef (setCurrentTime 5 playing0)
              = Some \<lparr>ctx_currentTime = 5, ctx_state = Running\<rparr>"
    and q: "audioQueueRef (setCurrentTime 5 playing0) = [0]"
    by (simp_all add: playing0_eq setCurrentTime_def)
  have i: "interrupted interruption" by (simp add: interruption_def)
  have g: "goodChunk env0 (audioChunk ''AAAA'')" by simp
  have st: "started (onmessage env0 interruption (setCurrentTime 5 playing0)) = [(0, 1)]"
    using interrupted_run by (simp add: playing0_eq)
  note t = interruption_hard_cut [OF m c i g, of 5]
  from t have 1: "audioQueueRef (onmessage env0 interruption (setCurrentTime 5 playing0)) = []"
    by blast
  from t q have 2: "set [0] \<subseteq> set (stopped (onmessage env0 interruption (setCurrentTime 5 playing0)))"
    by metis
  from t have 3: "nextStartTimeRef (onmessage env0 interruption (setCurrentTime 5 playing0)) = 5"
    by simp
  from t have "started (onmessage env0 (audioChunk ''AAAA'')
         (onmessage env0 interruption (setCurrentTime 5 playing0)))
     = started (onmessage env0 interruption (setCurrentTime 5 playing0))
         @ [(ctx_currentTime \<lparr>ctx_currentTime = 5, ctx_state = Running\<rparr>,
             chunkDuration env0 (audioChunk ''AAAA''))]" by blast
  then have 4: "started (onmessage env0 (audioChunk ''AAAA'')
         (onmessage env0 interruption (setCurrentTime 5 playing0))) = [(0, 1), (5, 1)]"
    by (simp only: st) simp
  from m c i g playing0_playback(3) q 1 2 3 4 show ?thesis by blast
qed

text \<open>
  The claim as stated says that the next buffer starts at T. With the interruption at
  clock 5 and the next chunk arriving at clock 7, the buffer starts at 7.
\<close>

theorem next_buffer_after_interruption_counterexample:
  "nextStartTimeRef (run env0 [ClockReads 5, OnMessage interruption] playing0) = 5
   \<and> audioQueueRef (run env0 [ClockReads 5, OnMessage interruption] playing0) = []
   \<and> started (run env0 [ClockReads 5, OnMessage interruption, ClockReads 7,
         OnMessage (audioChunk ''AAAA'')] playing0) = [(0, 1), (7, 1)]
   \<and> fst (last (started (run env0 [ClockReads 5, OnMessage interruption, ClockReads 7,
         OnMessage (audioChunk ''AAAA'')] playing0))) \<noteq> 5"
proof -
  have "run env0 [ClockReads 5, OnMessage interruption, ClockReads 7,
         OnMessage (audioChunk ''AAAA'')] playing0
      = run env0 [ClockReads 7, OnMessage (audioChunk ''AAAA'')]
          (run env0 [ClockReads 5, OnMessage interruption] playing0)" by simp
  then have b: "started (run env0 [ClockReads 5, OnMessage interruption, ClockReads 7,
         OnMessage (audioChunk ''AAAA'')] playing0) = [(0, 1), (7, 1)]"
    by (simp only: interrupted_run)
       (simp add: playing0_eq setCurrentTime_def audioChunk_def onmessage_def
          handleTranscription_def handleAudio_def env0_def)
  have a: "nextStartTimeRef (run env0 [ClockReads 5, OnMessage interruption] playing0) = 5"
    "audioQueueRef (run env0 [ClockReads 5, OnMessage interruption] playing0) = []"
    by (simp_all only: interrupted_run) simp_all
  have c: "fst (last [(0, 1), (7 :: real, 1 :: real)]) \<noteq> 5" by simp
  from a b c show ?thesis by (simp only:) simp
qed

section \<open>Decode failures: proofs\<close>

lemma handleAudio_bad:
  assumes "audioContextRef s = Some ctx" and "decodeAudioData env b = None"
  shows "started (handleAudio env b s) = started s"
    and "audioQueueRef (handleAudio env b s) = audioQueueRef s"
    and "stopped (handleAudio env b s) = stopped s"
    and "status (handleAudio env b s) = status s"
    and "errorMsg (handleAudio env b s) = errorMsg s"
    and "transcript (handleAudio env b s) = transcript s"
    and "nextStartTimeRef (handleAudio env b s) = max (nextStartTimeRef s) (ctx_currentTime ctx)"
    and "''Error decoding audio'' \<in> set (console (handleAudio env b s))"
  using assms by (simp_all add: handleAudio_def Let_def)

lemma handleInterruption_fields:
  "status (handleInterruption s) = status s"
  "errorMsg (handleInterruption s) = errorMsg s"
  "started (handleInterruption s) = started s"
  "transcript (handleInterruption s) = transcript s"
  "mountedRef (handleInterruption s) = mountedRef s"
  "set (console s) \<subseteq> set (console (handleInterruption s))"
  by (auto simp: handleInterruption_def Let_def split: option.splits)

lemma onmessage_bad:
  assumes "mountedRef s" and "audioContextRef s = Some ctx"
    and "inlineData m = Some b" and "b \<noteq> []" and "decodeAudioData env b = None"
  shows "status (onmessage env m s) = status s"
    and "errorMsg (onmessage env m s) = errorMsg s"
    and "mountedRef (onmessage env m s)"
    and "started (onmessage env m s) = started s"
    and "''Error decoding audio'' \<in> set (console (onmessage env m s))"
    and "\<not> interrupted m \<Longrightarrow> audioQueueRef (onmessage env m s) = audioQueueRef s"
    and "\<not> interrupted m \<Longrightarrow> stopped (onmessage env m s) = stopped s"
    and "nextStartTimeRef (onmessage env m s)
           = (if interrupted m then ctx_currentTime ctx
              else max (nextStartTimeRef s) (ctx_currentTime ctx))"
    and "\<exists>ctx'. audioContextRef (onmessage env m s) = Some ctx'
           \<and> ctx_currentTime ctx' = ctx_currentTime ctx"
    and "transcript (onmessage env m s) = transcript (onmessage env (m\<lparr>inlineData := None\<rparr>) s)"
proof -
  let ?s2 = "handleTranscription User (inputTranscription m) (dateNow env)
               (handleTranscription Model (outputTranscription m) (dateNow env) s)"
  let ?s3 = "handleAudio env b ?s2"
  have eq: "onmessage env m s = (if interrupted m then handleInterruption ?s3 else ?s3)"
    using assms(1,3,4) by (simp add: onmessage_def Let_def)
  have eq0: "onmessage env (m\<lparr>inlineData := None\<rparr>) s
               = (if interrupted m then handleInterruption ?s2 else ?s2)"
    using assms(1) by (simp add: onmessage_def Let_def)
  have c2: "audioContextRef ?s2 = Some ctx" using assms(2) by (simp add: handleTranscription_frame)
  have m2: "mountedRef ?s2" using assms(1) by (simp add: handleTranscription_frame)
  note h = handleAudio_bad [OF c2 assms(5)]
  note k = handleAudio_context [OF c2, of env b]
  from k(1) obtain ctx' where c3: "audioContextRef ?s3 = Some ctx'"
    and t3: "ctx_currentTime ctx' = ctx_currentTime ctx" by blast
  note i = handleInterruption_eq [OF c3]
  show "status (onmessage env m s) = status s"
    by (simp add: eq h handleInterruption_fields handleTranscription_playback)
  show "errorMsg (onmessage env m s) = errorMsg s"
    by (simp add: eq h handleInterruption_fields handleTranscription_playback)
  show "mountedRef (onmessage env m s)"
    using m2 k(3) by (simp add: eq handleInterruption_fields)
  show "started (onmessage env m s) = started s"
    by (simp add: eq h handleInterruption_fields handleTranscription_playback)
  show "''Error decoding audio'' \<in> set (console (onmessage env m s))"
    using h(8) handleInterruption_fields(6) [of ?s3] by (auto simp: eq)
  show "audioQueueRef (onmessage env m s) = audioQueueRef s" if "\<not> interrupted m"
    using that by (simp add: eq h handleTranscription_playback)
  show "stopped (onmessage env m s) = stopped s" if "\<not> interrupted m"
    using that by (simp add: eq h handleTranscription_playback)
  show "nextStartTimeRef (onmessage env m s)
           = (if interrupted m then ctx_currentTime ctx
              else max (nextStartTimeRef s) (ctx_currentTime ctx))"
    by (simp add: eq h i t3 handleTranscription_playback)
  show "\<exists>ctx'. audioContextRef (onmessage env m s) = Some ctx'
           \<and> ctx_currentTime ctx' = ctx_currentTime ctx"
    using c3 t3 by (simp add: eq i)
  show "transcript (onmessage env m s) = transcript (onmessage env (m\<lparr>inlineData := None\<rparr>) s)"
    by (simp add: eq eq0 h handleInterruption_fields)
qed

lemma onmessage_no_audio:
  assumes "mountedRef s" and "audioContextRef s = Some ctx" and "inlineData m = None"
  shows "mountedRef (onmessage env m s)"
    and "started (onmessage env m s) = started s"
    and "nextStartTimeRef (onmessage env m s)
           = (if interrupted m then ctx_currentTime ctx else nextStartTimeRef s)"
    and "audioContextRef (onmessage env m s) = Some ctx"
    and "audioQueueRef (onmessage env m s) = (if interrupted m then [] else audioQueueRef s)"
proof -
  let ?s2 = "handleTranscription User (inputTranscription m) (dateNow env)
               (handleTranscription Model (outputTranscription m) (dateNow env) s)"
  have eq: "onmessage env m s = (if interrupted m then handleInterruption ?s2 else ?s2)"
    using assms(1,3) by (simp add: onmessage_def Let_def)
  have c2: "audioContextRef ?s2 = Some ctx" using assms(2) by (simp add: handleTranscription_frame)
  have m2: "mountedRef ?s2" using assms(1) by (simp add: handleTranscription_frame)
  note i = handleInterruption_eq [OF c2]
  show "mountedRef (onmessage env m s)" using m2 by (simp add: eq i)
  show "started (onmessage env m s) = started s"
    by (simp add: eq i handleTranscription_playback)
  show "nextStartTimeRef (onmessage env m s)
           = (if interrupted m then ctx_currentTime ctx else nextStartTimeRef s)"
    by (simp add: eq i handleTranscription_playback)
  show "audioContextRef (onmessage env m s) = Some ctx" using c2 by (simp add: eq i)
  show "audioQueueRef (onmessage env m s) = (if interrupted m then [] else audioQueueRef s)"
    by (simp add: eq i handleTranscription_playback)
qed

text \<open>
  Claim C8. When the audio chunk of a message cannot be decoded, the failure is logged
  and the chunk is skipped: status and error message stay as they were (a connected call
  stays connected), nothing is added to the scheduled buffers, the transcript is that of
  the same message without the chunk, and unless the message also carries an
  interruption the queue and the stopped sources are untouched. A later chunk is
  scheduled exactly as if the failed chunk had never been part of the message (the output
  clock does not run backwards).
\<close>

theorem decode_failure_is_local:
  assumes "mountedRef s" and "audioContextRef s = Some ctx"
    and "inlineData m = Some b" and "b \<noteq> []" and "decodeAudioData env b = None"
  shows "status (onmessage env m s) = status s
   \<and> errorMsg (onmessage env m s) = errorMsg s
   \<and> mountedRef (onmessage env m s)
   \<and> ''Error decoding audio'' \<in> set (console (onmessage env m s))
   \<and> started (onmessage env m s) = started s
   \<and> transcript (onmessage env m s) = transcript (onmessage env (m\<lparr>inlineData := None\<rparr>) s)
   \<and> (\<not> interrupted m \<longrightarrow>
        audioQueueRef (onmessage env m s) = audioQueueRef s
        \<and> stopped (onmessage env m s) = stopped s)
   \<and> (ctx_currentTime ctx \<le> t \<and> goodChunk env next \<longrightarrow>
        started (onmessage env next (setCurrentTime t (onmessage env m s)))
          = started (onmessage env next
              (setCurrentTime t (onmessage env (m\<lparr>inlineData := None\<rparr>) s))))"
proof -
  let ?s1 = "onmessage env m s"
  let ?s0 = "onmessage env (m\<lparr>inlineData := None\<rparr>) s"
  note f = onmessage_bad [OF assms]
  have n0: "inlineData (m\<lparr>inlineData := None\<rparr>) = None" by simp
  note z = onmessage_no_audio [OF assms(1,2) n0, of env]
  have later: "started (onmessage env next (setCurrentTime t ?s1))
          = started (onmessage env next (setCurrentTime t ?s0))"
    if le: "ctx_currentTime ctx \<le> t" and g: "goodChunk env next"
  proof -
    from f(9) obtain ctx' where c1: "audioContextRef ?s1 = Some ctx'" by blast
    have m1: "mountedRef (setCurrentTime t ?s1)" using f(3) by (simp add: setCurrentTime_simps)
    have m0: "mountedRef (setCurrentTime t ?s0)" using z(1) by (simp add: setCurrentTime_simps)
    have a1: "audioContextRef (setCurrentTime t ?s1) = Some (ctx'\<lparr>ctx_currentTime := t\<rparr>)"
      using c1 by (rule setCurrentTime_simps)
    have a0: "audioContextRef (setCurrentTime t ?s0) = Some (ctx\<lparr>ctx_currentTime := t\<rparr>)"
      using z(4) by (rule setCurrentTime_simps)
    have "started (onmessage env next (setCurrentTime t ?s1))
            = started s @ [(max (nextStartTimeRef ?s1) t, chunkDuration env next)]"
      using onmessage_good(1) [OF m1 a1 g] by (simp add: setCurrentTime_simps f(4))
    moreover have "started (onmessage env next (setCurrentTime t ?s0))
            = started s @ [(max (nextStartTimeRef ?s0) t, chunkDuration env next)]"
      using onmessage_good(1) [OF m0 a0 g] z(2) by (simp add: setCurrentTime_simps)
    moreover have "max (nextStartTimeRef ?s1) t = max (nextStartTimeRef ?s0) t"
      using le by (auto simp: f(8) z(3))
    ultimately show ?thesis by simp
  qed
  from f(1,2,3,4,5,6,7,10) later show ?thesis by blast
qed


theorem decode_failure_is_local_witness:
  "mountedRef playing0
   \<and> audioContextRef playing0 = Some \<lparr>ctx_currentTime = 0, ctx_state = Running\<rparr>
   \<and> inlineData (audioChunk ''!!!!'') = Some ''!!!!''
   \<and> ''!!!!'' \<noteq> []
   \<and> decodeAudioData env0 ''!!!!'' = None
   \<and> \<not> interrupted (audioChunk ''!!!!'')
   \<and> (0 :: real) \<le> 2
   \<and> goodChunk env0 (audioChunk ''AAAA'')
   \<and> status (onmessage env0 (audioChunk ''!!!!'') playing0) = Connected
   \<and> started (onmessage env0 (audioChunk ''!!!!'') playing0) = [(0, 1)]
   \<and> audioQueueRef (onmessage env0 (audioChunk ''!!!!'') playing0) = [0]
   \<and> started (onmessage env0 (audioChunk ''AAAA'')
         (setCurrentTime 2 (onmessage env0 (audioChunk ''!!!!'') playing0))) = [(0, 1), (2, 1)]"
proof -
  have i: "inlineData (audioChunk ''!!!!'') = Some ''!!!!''"
    and ni: "\<not> interrupted (audioChunk ''!!!!'')" by (simp_all add: audioChunk_def)
  have ne: "''!!!!'' \<noteq> []" by simp
  have d: "decodeAudioData env0 ''!!!!'' = None" by (simp add: env0_def)
  have ctx: "ctx_currentTime \<lparr>ctx_currentTime = 0, ctx_state = Running\<rparr> \<le> 2" by simp
  have g: "goodChunk env0 (audioChunk ''AAAA'')" by simp
  note t = decode_failure_is_local [OF playing0_playback(1,4) i ne d, of 2 "audioChunk ''AAAA''"]
  have st: "status playing0 = Connected" by (simp add: playing0_eq)
  have skipped: "onmessage env0 ((audioChunk ''!!!!'')\<lparr>inlineData := None\<rparr>) playing0 = playing0"
    by (simp add: onmessage_def handleTranscription_def audioChunk_def playing0_eq)
  have direct: "started (onmessage env0 (audioChunk ''AAAA'') (setCurrentTime 2 playing0))
                  = [(0, 1), (2, 1)]"
    by (simp add: playing0_eq setCurrentTime_def audioChunk_def onmessage_def
        handleTranscription_def handleAudio_def env0_def)
  from t st have 1: "status (onmessage env0 (audioChunk ''!!!!'') playing0) = Connected" by metis
  from t playing0_playback(2)
  have 2: "started (onmessage env0 (audioChunk ''!!!!'') playing0) = [(0, 1)]" by metis
  from t ni playing0_playback(5)
  have 3: "audioQueueRef (onmessage env0 (audioChunk ''!!!!'') playing0) = [0]" by metis
  from t ctx g have "started (onmessage env0 (audioChunk ''AAAA'')
         (setCurrentTime 2 (onmessage env0 (audioChunk ''!!!!'') playing0)))
     = started (onmessage env0 (audioChunk ''AAAA'')
         (setCurrentTime 2 (onmessage env0 ((audioChunk ''!!!!'')\<lparr>inlineData := None\<rparr>) playing0)))"
    by blast
  then have 4: "started (onmessage env0 (audioChunk ''AAAA'')
         (setCurrentTime 2 (onmessage env0 (audioChunk ''!!!!'') playing0))) = [(0, 1), (2, 1)]"
    by (simp only: skipped direct)
  have z: "(0 :: real) \<le> 2" by simp
  from playing0_playback(1,4) i ne d ni z g 1 2 3 4 show ?thesis by blast
qed

section \<open>Product extraction: proofs\<close>

text \<open>
  Claim C10, as the code has it. Once \<^verbatim>\<open>getClient()\<close> has returned, \<^verbatim>\<open>extractProductInfo\<close>
  never rejects, for any URL and manual text: whenever the request throws, the response
  has no text or an empty one, or the text does not parse, it resolves to the fallback,
  whose \<^verbatim>\<open>url\<close> is the input URL, whose \<^verbatim>\<open>companyName\<close> is \<^verbatim>\<open>Ukjent Bedrift\<close> and whose
  \<^verbatim>\<open>sellingPoints\<close> has three entries; otherwise it resolves to the parsed object.
\<close>

theorem extractProductInfo_fallback:
  assumes "getClient env = Inr ai"
  shows "\<not> isl (extractProductInfo env theUrl manualText)
   \<and> ((case svc_generateContent env theUrl manualText of
          Inl e \<Rightarrow> True
        | Inr text \<Rightarrow> (case text of None \<Rightarrow> True | Some t \<Rightarrow> t = [] \<or> isl (svc_jsonParse env t)))
        \<longrightarrow> extractProductInfo env theUrl manualText = Inr (fallbackProduct theUrl))
   \<and> (svc_generateContent env theUrl manualText = Inr (Some t) \<and> t \<noteq> []
          \<and> svc_jsonParse env t = Inr product
        \<longrightarrow> extractProductInfo env theUrl manualText = Inr product)
   \<and> url (fallbackProduct theUrl) = theUrl
   \<and> companyName (fallbackProduct theUrl) = ''Ukjent Bedrift''
   \<and> length (sellingPoints (fallbackProduct theUrl)) = 3"
  using assms
  by (auto simp: extractProductInfo_def Let_def fallbackProduct_def
      split: sum.splits option.splits)

theorem extractProductInfo_fallback_witness:
  "getClient requestFails = Inr ()
   \<and> extractProductInfo requestFails ''https://example.no'' ''Vi selger kaffe''
       = Inr \<lparr>url = ''https://example.no'', companyName = ''Ukjent Bedrift'',
              description = ''Kunne ikke hente info automatisk. Bruker standard oppsett.'',
              sellingPoints = [''Kvalitet'', ''Service'', ''Innovasjon'']\<rparr>"
proof -
  have c: "getClient requestFails = Inr ()" by (simp add: getClient_def requestFails_def)
  have f: "(case svc_generateContent requestFails ''https://example.no'' ''Vi selger kaffe'' of
          Inl e \<Rightarrow> True
        | Inr text \<Rightarrow> (case text of None \<Rightarrow> True
            | Some t \<Rightarrow> t = [] \<or> isl (svc_jsonParse requestFails t)))"
    by (simp add: requestFails_def)
  from extractProductInfo_fallback [OF c, of "''https://example.no''" "''Vi selger kaffe''"] f
  have "extractProductInfo requestFails ''https://example.no'' ''Vi selger kaffe''
          = Inr (fallbackProduct ''https://example.no'')" by blast
  with c show ?thesis by (simp add: fallbackProduct_def)
qed

text \<open>
  The claim as stated says that the function never rejects. \<^verbatim>\<open>getClient()\<close> is called
  before the \<^verbatim>\<open>try\<close> block, so an exception of the client's constructor rejects the
  promise (the caller in UrlAnalyzer.tsx catches it).
\<close>

theorem extractProductInfo_rejects_counterexample:
  "isl (extractProductInfo clientFails ''https://example.no'' ''Vi selger kaffe'')"
  by (simp add: extractProductInfo_def getClient_def clientFails_def requestFails_def)

end
